theory Spec2Isabelle
  imports Main "HOL-Library.Sublist"
begin

section \<open>Data model (types/index.ts, the SQL schema)\<close>

text \<open>
  The enums of \<^verbatim>\<open>types/index.ts\<close> and of the schema
  (\<^verbatim>\<open>CREATE TYPE job_status\<close>, \<^verbatim>\<open>CREATE TYPE scan_result\<close>).
\<close>

datatype JobStatus = PENDING | PROCESSING | COMPLETED | FAILED | CANCELLED

datatype ScanResultType = CLEAN | INFECTED | ERROR

text \<open>
  The error classes of \<^verbatim>\<open>utils/errors.ts\<close>, each with its message. \<open>PgError\<close> is
  an error of the database driver that reaches the caller unwrapped (the statements of
  a transaction go through \<^verbatim>\<open>client.query\<close>, not through the wrapper \<^verbatim>\<open>query\<close>);
  \<open>JsError\<close> is a plain \<^verbatim>\<open>new Error(message)\<close>.
\<close>

datatype app_error =
    ValidationError string
  | NotFoundError string string
  | DatabaseError string
  | StorageError string
  | QueueError string
  | ScannerError string
  | ScannerUnavailableError
  | PgError string
  | JsError string

fun message :: "app_error \<Rightarrow> string" where
  "message (ValidationError m) = m"
| "message (NotFoundError resource identifier) = resource @ '' not found: '' @ identifier"
| "message (DatabaseError m) = m"
| "message (StorageError m) = m"
| "message (QueueError m) = m"
| "message (ScannerError m) = m"
| "message ScannerUnavailableError =
     ''Virus scanner is temporarily unavailable. Please try again later.''"
| "message (PgError m) = m"
| "message (JsError m) = m"

text \<open>
  A row of table \<^verbatim>\<open>jobs\<close>. Timestamps are natural numbers (a clock reading). The
  column \<^verbatim>\<open>id\<close> is written \<open>id_jobs\<close>, since \<open>id\<close> is the identity function of HOL.
  \<^verbatim>\<open>mapRowToJob\<close> only renames the columns (and parses \<^verbatim>\<open>file_size\<close>), so the
  functions below return the row where the source returns the \<^verbatim>\<open>Job\<close>.
\<close>

record JobRow =
  id_jobs :: string
  original_filename :: string
  stored_filename :: string
  file_path :: string
  file_size :: int
  mime_type :: "string option"
  checksum :: "string option"
  status :: JobStatus
  priority :: int
  attempts :: int
  max_attempts :: int
  error_message :: "string option"
  created_at :: nat
  updated_at :: nat
  started_at :: "nat option"
  completed_at :: "nat option"

text \<open>A row of table \<^verbatim>\<open>scan_results\<close>; \<open>id_scan_results\<close> is its column \<^verbatim>\<open>id\<close>.\<close>

record ScanResultRow =
  id_scan_results :: string
  job_id :: string
  result :: ScanResultType
  is_infected :: bool
  threat_name :: "string option"
  threat_category :: "string option"
  threat_description :: "string option"
  scanner_version :: "string option"
  definition_version :: "string option"
  scan_duration_ms :: int
  scanned_at :: nat

text \<open>
  \<^verbatim>\<open>CreateJobInput\<close>. The TypeScript type makes the first four fields mandatory; at run
  time a field that is absent is \<^verbatim>\<open>undefined\<close>, which the record writes \<open>None\<close>, so
  that an input with a missing field can be written down at all. Each field name
  carries the suffix \<open>_in\<close>.
\<close>

record CreateJobInput =
  originalFilename_in :: "string option"
  storedFilename_in :: "string option"
  filePath_in :: "string option"
  fileSize_in :: "int option"
  mimeType_in :: "string option"
  checksum_in :: "string option"
  priority_in :: "int option"

text \<open>
  \<^verbatim>\<open>ScanJobPayload\<close>, \<^verbatim>\<open>ClamScanResult\<close> and \<^verbatim>\<open>StoredFile\<close>. Field names carry a
  suffix where the bare name is also a column, a field of another record or a
  variable of the functions below.
\<close>

record ScanJobPayload =
  jobId_payload :: string
  filePath_payload :: string
  attempt_payload :: int

record ClamScanResult =
  isInfected_clam :: bool
  viruses :: "string list"
  scannedFiles :: int
  scanDurationMs_clam :: int
  error_clam :: "string option"

record StoredFile =
  storedFilename_sf :: string
  filePath_sf :: string
  fileSize_sf :: int
  checksum_sf :: string

text \<open>
  An entry of the BullMQ queue \<^verbatim>\<open>file-scan\<close>: the queue's job id, the payload and the
  options \<^verbatim>\<open>priority\<close> and \<^verbatim>\<open>delay\<close> given to \<^verbatim>\<open>scanQueue.add\<close>, and the time of
  the call.
\<close>

record QueueEntry =
  queue_job_id :: string
  data :: ScanJobPayload
  opts_priority :: int
  opts_delay :: int
  added_at :: nat

text \<open>The calls made to the scanner service, in order.\<close>

datatype scanner_call = InitScanner | ScanFile string

text \<open>The argument of \<^verbatim>\<open>completeJobWithResult\<close>.\<close>

record ResultData =
  result_in :: ScanResultType
  isInfected :: bool
  threatName :: "string option"
  scanDurationMs :: int

section \<open>The database (db/client.ts and the schema)\<close>

text \<open>
  The two tables, in insertion order. The schema has a primary key on each \<^verbatim>\<open>id\<close>, a
  foreign key from \<^verbatim>\<open>scan_results.job_id\<close> to \<^verbatim>\<open>jobs.id\<close>, \<^verbatim>\<open>NOT NULL\<close> columns and
  defaults; it has no \<^verbatim>\<open>UNIQUE\<close> constraint on \<^verbatim>\<open>scan_results.job_id\<close> and no
  \<^verbatim>\<open>CHECK\<close> constraint.
\<close>

record Db =
  jobs :: "JobRow list"
  scan_results :: "ScanResultRow list"

text \<open>
  The world a service function runs in: the database, the clock that \<^verbatim>\<open>NOW()\<close> reads,
  and \<open>pg_faults\<close>, the schedule of the statements that are lost to the infrastructure
  (connection refused or dropped, time-out, a counter that has outgrown its column):
  the head tells whether the next statement sent fails, an empty schedule means that
  no further statement is lost. The other fields are the rest of the process's
  environment: the working directory and the configured upload directory, the paths
  of the files that exist (\<open>disk\<close>), the entries of the queue in the order they were
  added, the schedule of the queue commands that Redis loses (\<open>redis_faults\<close>, read as
  \<open>pg_faults\<close>), and the calls the scanner service has received.
\<close>

record World =
  db :: Db
  clock :: nat
  pg_faults :: "bool list"
  cwd :: string
  config_uploadDir :: string
  disk :: "string set"
  queue :: "QueueEntry list"
  redis_faults :: "bool list"
  scanner_calls :: "scanner_call list"

text \<open>
  One SQL statement is a function of the clock reading and the database that fails
  with a message (a constraint is violated) or gives the new database and the
  statement's rows. \<open>pg_send\<close> sends one statement in autocommit mode.
\<close>

type_synonym 'r statement = "nat \<Rightarrow> Db \<Rightarrow> string + Db \<times> 'r"

definition next_fault :: "World \<Rightarrow> bool" where
  "next_fault w = (case pg_faults w of [] \<Rightarrow> False | b # bs \<Rightarrow> b)"

definition consume_fault :: "World \<Rightarrow> World" where
  "consume_fault w = w\<lparr>pg_faults := tl (pg_faults w)\<rparr>"

definition pg_send :: "'r statement \<Rightarrow> World \<Rightarrow> (string + 'r) \<times> World" where
  "pg_send stmt w =
     (if next_fault w then (Inl ''connection failure'', consume_fault w)
      else (case stmt (clock w) (db w) of
              Inl m \<Rightarrow> (Inl m, consume_fault w)
            | Inr (d, r) \<Rightarrow> (Inr r, (consume_fault w)\<lparr>db := d\<rparr>)))"

text \<open>
  \<^verbatim>\<open>query\<close> of db/client.ts: \<^verbatim>\<open>pool.query\<close>, every error rethrown as
  \<^verbatim>\<open>DatabaseError('Database query failed')\<close>.
\<close>

definition query :: "'r statement \<Rightarrow> World \<Rightarrow> (app_error + 'r) \<times> World" where
  "query stmt w =
     (case pg_send stmt w of
        (Inl m, w') \<Rightarrow> (Inl (DatabaseError ''Database query failed''), w')
      | (Inr r, w') \<Rightarrow> (Inr r, w'))"

text \<open>\<^verbatim>\<open>client.query\<close> inside a transaction: the driver's error is not wrapped.\<close>

definition client_query :: "'r statement \<Rightarrow> World \<Rightarrow> (app_error + 'r) \<times> World" where
  "client_query stmt w =
     (case pg_send stmt w of
        (Inl m, w') \<Rightarrow> (Inl (PgError m), w')
      | (Inr r, w') \<Rightarrow> (Inr r, w'))"

text \<open>
  \<^verbatim>\<open>withTransaction\<close>: \<^verbatim>\<open>BEGIN\<close>, the body, \<^verbatim>\<open>COMMIT\<close>; on any error \<^verbatim>\<open>ROLLBACK\<close> and
  rethrow. The body works on the database of the world it is given; a rollback (and a
  \<^verbatim>\<open>COMMIT\<close> that fails) puts back the database saved at \<^verbatim>\<open>BEGIN\<close>. When the
  \<^verbatim>\<open>ROLLBACK\<close> statement itself is lost, its error is the one thrown, and the server
  drops the open transaction with the connection. A failure of \<^verbatim>\<open>pool.connect\<close> is
  not told apart from a lost \<^verbatim>\<open>BEGIN\<close>: both end in the error, the tables untouched.
\<close>

definition no_rows :: "unit statement" where
  "no_rows now d = Inr (d, ())"

definition rollback :: "Db \<Rightarrow> app_error \<Rightarrow> World \<Rightarrow> (app_error + 'a) \<times> World" where
  "rollback saved e w =
     (case client_query no_rows (w\<lparr>db := saved\<rparr>) of
        (Inl e', w') \<Rightarrow> (Inl e', w')
      | (Inr u, w') \<Rightarrow> (Inl e, w'))"

definition withTransaction ::
  "(World \<Rightarrow> (app_error + 'a) \<times> World) \<Rightarrow> World \<Rightarrow> (app_error + 'a) \<times> World" where
  "withTransaction fn w =
     (let saved = db w in
      case client_query no_rows w of
        (Inl e, w1) \<Rightarrow> rollback saved e w1
      | (Inr u, w1) \<Rightarrow>
          (case fn w1 of
             (Inl e, w2) \<Rightarrow> rollback saved e w2
           | (Inr r, w2) \<Rightarrow>
               (case client_query no_rows w2 of
                  (Inl e, w3) \<Rightarrow> rollback saved e w3
                | (Inr u', w3) \<Rightarrow> (Inr r, w3))))"

section \<open>The job store (services/job.service.ts)\<close>

text \<open>
  The column types of table \<^verbatim>\<open>jobs\<close>. A column \<^verbatim>\<open>VARCHAR(n)\<close> rejects a text that
  holds the character NUL, stores a text of at most \<open>n\<close> characters as it is, cuts a
  longer one to \<open>n\<close> characters when all that is cut off are spaces, and rejects it
  otherwise; \<open>varchar_null\<close> is the same for a column that may be \<^verbatim>\<open>NULL\<close>. A column
  \<^verbatim>\<open>INTEGER\<close> or \<^verbatim>\<open>BIGINT\<close> rejects a number outside its range. \<open>fits\<close> tells whether a
  parameter, if it is given, is a text the column takes. A text is a list of
  characters, its length their number; a number is an integer.
\<close>

definition varchar :: "nat \<Rightarrow> string \<Rightarrow> string option" where
  "varchar n s =
     (if CHR 0x00 \<in> set s then None
      else if length s \<le> n then Some s
      else if list_all (\<lambda>c. c = CHR '' '') (drop n s) then Some (take n s)
      else None)"

definition varchar_null :: "nat \<Rightarrow> string option \<Rightarrow> string option option" where
  "varchar_null n x = (case x of None \<Rightarrow> Some None | Some s \<Rightarrow> map_option Some (varchar n s))"

definition fits :: "nat \<Rightarrow> string option \<Rightarrow> bool" where
  "fits n x = (case x of None \<Rightarrow> True | Some s \<Rightarrow> varchar n s \<noteq> None)"

definition integer_range :: "int \<Rightarrow> bool" where
  "integer_range i = (- 2147483648 \<le> i \<and> i \<le> 2147483647)"

definition bigint_range :: "int \<Rightarrow> bool" where
  "bigint_range i = (- 9223372036854775808 \<le> i \<and> i \<le> 9223372036854775807)"

text \<open>
  \<^verbatim>\<open>INSERT INTO jobs (id, original_filename, stored_filename, file_path, file_size,
  mime_type, checksum, priority) VALUES (...) RETURNING *\<close>. A parameter that is
  \<^verbatim>\<open>undefined\<close> is sent as \<^verbatim>\<open>NULL\<close>; the four \<^verbatim>\<open>NOT NULL\<close> columns reject it. \<open>job_row\<close>
  is the row as the columns store it, if every column takes its value:
  \<^verbatim>\<open>original_filename\<close> and \<^verbatim>\<open>stored_filename\<close> are \<^verbatim>\<open>VARCHAR(255)\<close>, \<^verbatim>\<open>file_path\<close> is
  \<^verbatim>\<open>VARCHAR(500)\<close>, \<^verbatim>\<open>mime_type\<close> \<^verbatim>\<open>VARCHAR(100)\<close>, \<^verbatim>\<open>checksum\<close> \<^verbatim>\<open>VARCHAR(64)\<close>, \<^verbatim>\<open>file_size\<close>
  \<^verbatim>\<open>BIGINT\<close> and \<^verbatim>\<open>priority\<close> \<^verbatim>\<open>INTEGER\<close>; the other columns take their defaults: status
  \<^verbatim>\<open>pending\<close>, attempts 0, max_attempts 3, both timestamps \<^verbatim>\<open>NOW()\<close>. The primary key
  rejects an id that a row already has. An id is any string: which strings are
  well-formed UUIDs is not modelled (\<^verbatim>\<open>uuidv4\<close> returns no other).
\<close>

definition job_row ::
  "string \<Rightarrow> string option \<Rightarrow> string option \<Rightarrow> string option \<Rightarrow> int option \<Rightarrow>
   string option \<Rightarrow> string option \<Rightarrow> int \<Rightarrow> nat \<Rightarrow> JobRow option" where
  "job_row i ofn sfn fp fs mt cs pr now =
     (case (ofn, sfn, fp, fs) of
        (Some ofn', Some sfn', Some fp', Some fs') \<Rightarrow>
          (case (varchar 255 ofn', varchar 255 sfn', varchar 500 fp',
                 varchar_null 100 mt, varchar_null 64 cs) of
             (Some ofn'', Some sfn'', Some fp'', Some mt', Some cs') \<Rightarrow>
               if bigint_range fs' \<and> integer_range pr
               then Some \<lparr>id_jobs = i, original_filename = ofn'', stored_filename = sfn'',
                           file_path = fp'', file_size = fs', mime_type = mt', checksum = cs',
                           status = PENDING, priority = pr, attempts = 0, max_attempts = 3,
                           error_message = None, created_at = now, updated_at = now,
                           started_at = None, completed_at = None\<rparr>
               else None
           | _ \<Rightarrow> None)
      | _ \<Rightarrow> None)"

definition insert_job ::
  "string \<Rightarrow> string option \<Rightarrow> string option \<Rightarrow> string option \<Rightarrow> int option \<Rightarrow>
   string option \<Rightarrow> string option \<Rightarrow> int \<Rightarrow> JobRow statement" where
  "insert_job i ofn sfn fp fs mt cs pr now d =
     (case job_row i ofn sfn fp fs mt cs pr now of
        None \<Rightarrow> Inl ''null value, value too long or value out of range''
      | Some row \<Rightarrow>
          if i \<in> set (map id_jobs (jobs d))
          then Inl ''duplicate key value violates unique constraint''
          else Inr (d\<lparr>jobs := jobs d @ [row]\<rparr>, row))"

text \<open>\<^verbatim>\<open>createJob\<close>; \<open>uuid\<close> is the value \<^verbatim>\<open>uuidv4()\<close> returns in this call.\<close>

definition createJob :: "string \<Rightarrow> CreateJobInput \<Rightarrow> World \<Rightarrow> (app_error + JobRow) \<times> World" where
  "createJob uuid input w =
     query (insert_job uuid (originalFilename_in input) (storedFilename_in input) (filePath_in input)
              (fileSize_in input) (mimeType_in input) (checksum_in input)
              (case priority_in input of None \<Rightarrow> 0 | Some p \<Rightarrow> p)) w"

text \<open>\<^verbatim>\<open>SELECT * FROM jobs WHERE id = $1\<close>, first row or null.\<close>

definition select_job :: "string \<Rightarrow> (JobRow option) statement" where
  "select_job jobId now d = Inr (d, find (\<lambda>r. id_jobs r = jobId) (jobs d))"

definition getJobById :: "string \<Rightarrow> World \<Rightarrow> (app_error + JobRow option) \<times> World" where
  "getJobById jobId w = query (select_job jobId) w"

text \<open>
  \<^verbatim>\<open>UPDATE jobs SET status = $2 [, started_at = NOW(), attempts = attempts + 1]
  [, completed_at = NOW()] [, error_message = $3] WHERE id = $1 RETURNING *\<close>, as
  \<^verbatim>\<open>updateJobStatus\<close> assembles it, with the trigger that sets \<^verbatim>\<open>updated_at\<close> on every
  updated row. The statement returns the updated rows.
\<close>

definition set_status :: "JobStatus \<Rightarrow> string option \<Rightarrow> nat \<Rightarrow> JobRow \<Rightarrow> JobRow" where
  "set_status st errorMessage now r =
     (let r1 = r\<lparr>status := st\<rparr>;
          r2 = (if st = PROCESSING
                then r1\<lparr>started_at := Some now, attempts := attempts r1 + 1\<rparr> else r1);
          r3 = (if st = COMPLETED \<or> st = FAILED then r2\<lparr>completed_at := Some now\<rparr> else r2);
          r4 = (case errorMessage of None \<Rightarrow> r3 | Some m \<Rightarrow> r3\<lparr>error_message := Some m\<rparr>)
      in r4\<lparr>updated_at := now\<rparr>)"

definition update_job :: "string \<Rightarrow> (JobRow \<Rightarrow> JobRow) \<Rightarrow> Db \<Rightarrow> Db" where
  "update_job jobId f d = d\<lparr>jobs := map (\<lambda>r. if id_jobs r = jobId then f r else r) (jobs d)\<rparr>"

definition update_status :: "string \<Rightarrow> JobStatus \<Rightarrow> string option \<Rightarrow> (JobRow list) statement" where
  "update_status jobId st errorMessage now d =
     Inr (update_job jobId (set_status st errorMessage now) d,
          map (set_status st errorMessage now) (filter (\<lambda>r. id_jobs r = jobId) (jobs d)))"

definition updateJobStatus ::
  "string \<Rightarrow> JobStatus \<Rightarrow> string option \<Rightarrow> World \<Rightarrow> (app_error + JobRow) \<times> World" where
  "updateJobStatus jobId st errorMessage w =
     (case query (update_status jobId st errorMessage) w of
        (Inl e, w') \<Rightarrow> (Inl e, w')
      | (Inr rows, w') \<Rightarrow>
          (case rows of
             [] \<Rightarrow> (Inl (NotFoundError ''Job'' jobId), w')
           | r # rs \<Rightarrow> (Inr r, w')))"

text \<open>
  \<^verbatim>\<open>getPendingJobs\<close>: \<^verbatim>\<open>WHERE status = 'pending' ORDER BY priority DESC, created_at ASC
  LIMIT $1\<close>, and \<^verbatim>\<open>getRetryableJobs\<close>: \<^verbatim>\<open>WHERE status = 'failed' AND attempts <
  max_attempts ORDER BY updated_at ASC LIMIT $1\<close>. The sorts are stable, so two sorts
  give the order by the second key first and the first key among its ties; rows that
  tie on every key stay in table order.
\<close>

definition select_pending :: "nat \<Rightarrow> (JobRow list) statement" where
  "select_pending limit now d =
     Inr (d, take limit
               (sort_key (\<lambda>r. - priority r)
                  (sort_key created_at (filter (\<lambda>r. status r = PENDING) (jobs d)))))"

definition getPendingJobs :: "nat \<Rightarrow> World \<Rightarrow> (app_error + JobRow list) \<times> World" where
  "getPendingJobs limit w = query (select_pending limit) w"

definition select_retryable :: "nat \<Rightarrow> (JobRow list) statement" where
  "select_retryable limit now d =
     Inr (d, take limit
               (sort_key updated_at
                  (filter (\<lambda>r. status r = FAILED \<and> attempts r < max_attempts r) (jobs d))))"

definition getRetryableJobs :: "nat \<Rightarrow> World \<Rightarrow> (app_error + JobRow list) \<times> World" where
  "getRetryableJobs limit w = query (select_retryable limit) w"

text \<open>
  \<^verbatim>\<open>completeJobWithResult\<close>: in one transaction, \<^verbatim>\<open>INSERT INTO scan_results (id, job_id,
  result, is_infected, threat_name, scan_duration_ms)\<close> and \<^verbatim>\<open>UPDATE jobs SET status =
  'completed', completed_at = NOW() WHERE id = $1\<close>. The insert is rejected by the
  primary key when the id is taken and by the foreign key when no job has the id
  \<open>jobId\<close>; nothing rejects a second row for the same job.
\<close>

definition new_scan_result :: "string \<Rightarrow> string \<Rightarrow> ResultData \<Rightarrow> nat \<Rightarrow> ScanResultRow" where
  "new_scan_result i jobId scanResult now =
     \<lparr>id_scan_results = i, job_id = jobId, result = result_in scanResult,
      is_infected = isInfected scanResult, threat_name = threatName scanResult,
      threat_category = None, threat_description = None,
      scanner_version = None, definition_version = None,
      scan_duration_ms = scanDurationMs scanResult, scanned_at = now\<rparr>"

definition insert_scan_result :: "string \<Rightarrow> string \<Rightarrow> ResultData \<Rightarrow> unit statement" where
  "insert_scan_result i jobId scanResult now d =
     (if i \<in> set (map id_scan_results (scan_results d))
      then Inl ''duplicate key value violates unique constraint''
      else if jobId \<notin> set (map id_jobs (jobs d))
      then Inl ''insert or update on table violates foreign key constraint''
      else Inr (d\<lparr>scan_results := scan_results d @
                    [new_scan_result i jobId scanResult now]\<rparr>, ()))"

definition mark_completed :: "nat \<Rightarrow> JobRow \<Rightarrow> JobRow" where
  "mark_completed now r = r\<lparr>status := COMPLETED, completed_at := Some now, updated_at := now\<rparr>"

definition complete_job :: "string \<Rightarrow> unit statement" where
  "complete_job jobId now d = Inr (update_job jobId (mark_completed now) d, ())"

definition completeJobWithResult ::
  "string \<Rightarrow> string \<Rightarrow> ResultData \<Rightarrow> World \<Rightarrow> (app_error + unit) \<times> World" where
  "completeJobWithResult uuid jobId scanResult w =
     withTransaction
       (\<lambda>w0. case client_query (insert_scan_result uuid jobId scanResult) w0 of
                (Inl e, w1) \<Rightarrow> (Inl e, w1)
              | (Inr u, w1) \<Rightarrow> client_query (complete_job jobId) w1) w"

section \<open>Paths (Node's \<^verbatim>\<open>path\<close> module, POSIX flavour)\<close>

text \<open>
  The functions of \<^verbatim>\<open>path\<close> that \<^verbatim>\<open>getFilePath\<close> calls, as Node defines them for
  POSIX: \<^verbatim>\<open>normalizeString\<close> walks the segments between slashes, skips an empty
  segment and \<^verbatim>\<open>.\<close>, lets \<^verbatim>\<open>..\<close> remove the segment before it (or, for a relative
  path, keeps it when there is none to remove), and joins what is left with slashes.
\<close>

fun split_path :: "string \<Rightarrow> string list" where
  "split_path [] = [[]]"
| "split_path (c # cs) =
     (if c = CHR ''/'' then [] # split_path cs
      else (case split_path cs of [] \<Rightarrow> [[c]] | s # ss \<Rightarrow> (c # s) # ss))"

fun join_path :: "string list \<Rightarrow> string" where
  "join_path [] = []"
| "join_path [s] = s"
| "join_path (s # t # ss) = s @ ''/'' @ join_path (t # ss)"

fun normalize_segments :: "bool \<Rightarrow> string list \<Rightarrow> string list \<Rightarrow> string list" where
  "normalize_segments allowAboveRoot res [] = res"
| "normalize_segments allowAboveRoot res (s # ss) =
     (if s = [] \<or> s = ''.'' then normalize_segments allowAboveRoot res ss
      else if s = ''..'' then
        (if res \<noteq> [] \<and> last res \<noteq> ''..''
         then normalize_segments allowAboveRoot (butlast res) ss
         else if allowAboveRoot then normalize_segments allowAboveRoot (res @ [''..'']) ss
         else normalize_segments allowAboveRoot res ss)
      else normalize_segments allowAboveRoot (res @ [s]) ss)"

definition normalizeString :: "string \<Rightarrow> bool \<Rightarrow> string" where
  "normalizeString path allowAboveRoot =
     join_path (normalize_segments allowAboveRoot [] (split_path path))"

definition isAbsolute :: "string \<Rightarrow> bool" where
  "isAbsolute path = (case path of [] \<Rightarrow> False | c # cs \<Rightarrow> c = CHR ''/'')"

definition path_normalize :: "string \<Rightarrow> string" where
  "path_normalize path =
     (if path = [] then ''.''
      else
        (let trailingSeparator = (last path = CHR ''/'');
             n = normalizeString path (\<not> isAbsolute path)
         in if n = [] then (if isAbsolute path then ''/''
                            else if trailingSeparator then ''./'' else ''.'')
            else (let n' = (if trailingSeparator then n @ ''/'' else n)
                  in if isAbsolute path then ''/'' @ n' else n')))"

text \<open>\<^verbatim>\<open>path.join(a, b)\<close>: the non-empty arguments joined by a slash, normalised.\<close>

definition path_join :: "string \<Rightarrow> string \<Rightarrow> string" where
  "path_join a b =
     (if a = [] \<and> b = [] then ''.''
      else path_normalize (if a = [] then b else if b = [] then a else a @ ''/'' @ b))"

text \<open>
  \<^verbatim>\<open>path.resolve(p)\<close> in working directory \<open>wd\<close>: the working directory is put in front
  of a path that is not absolute.
\<close>

definition path_resolve :: "string \<Rightarrow> string \<Rightarrow> string" where
  "path_resolve wd p =
     (let r0 = (if p = [] then [] else p @ ''/'');
          resolvedPath = (if isAbsolute p \<or> wd = [] then r0 else wd @ ''/'' @ r0);
          resolvedAbsolute = (if isAbsolute p then True else isAbsolute wd);
          n = normalizeString resolvedPath (\<not> resolvedAbsolute)
      in if resolvedAbsolute then ''/'' @ n else if n \<noteq> [] then n else ''.'')"

text \<open>
  \<^verbatim>\<open>path.basename(p)\<close>: the trailing slashes are dropped, the result is what follows the
  last slash that is left.
\<close>

definition path_basename :: "string \<Rightarrow> string" where
  "path_basename path =
     rev (takeWhile (\<lambda>c. c \<noteq> CHR ''/'') (dropWhile (\<lambda>c. c = CHR ''/'') (rev path)))"

section \<open>Storage (services/storage.service.ts)\<close>

text \<open>
  \<open>UPLOAD_DIR\<close> is the module constant \<^verbatim>\<open>path.resolve(config.storage.uploadDir)\<close>.
  \<^verbatim>\<open>getFilePath\<close> takes the working directory and the constant as arguments.
\<close>

definition UPLOAD_DIR :: "World \<Rightarrow> string" where
  "UPLOAD_DIR w = path_resolve (cwd w) (config_uploadDir w)"

definition getFilePath :: "string \<Rightarrow> string \<Rightarrow> string \<Rightarrow> app_error + string" where
  "getFilePath wd upload_dir storedFilename =
     (let safeName = path_basename storedFilename;
          filePath = path_join upload_dir safeName;
          resolvedPath = path_resolve wd filePath;
          resolvedUploadDir = path_resolve wd upload_dir
      in if \<not> prefix (resolvedUploadDir @ ''/'') resolvedPath
         then Inl (StorageError (''Invalid file path detected: '' @ storedFilename))
         else Inr resolvedPath)"

text \<open>\<^verbatim>\<open>fileExists\<close>: \<^verbatim>\<open>fs.access\<close> of the path; any error gives \<^verbatim>\<open>false\<close>.\<close>

definition fileExists :: "string \<Rightarrow> World \<Rightarrow> bool" where
  "fileExists storedFilename w =
     (case getFilePath (cwd w) (UPLOAD_DIR w) storedFilename of
        Inl e \<Rightarrow> False
      | Inr p \<Rightarrow> p \<in> disk w)"

text \<open>\<^verbatim>\<open>deleteFile\<close>: \<^verbatim>\<open>fs.unlink\<close> of the path; any error becomes a \<^verbatim>\<open>StorageError\<close>.\<close>

definition deleteFile :: "string \<Rightarrow> World \<Rightarrow> (app_error + unit) \<times> World" where
  "deleteFile storedFilename w =
     (case getFilePath (cwd w) (UPLOAD_DIR w) storedFilename of
        Inl e \<Rightarrow> (Inl (StorageError ''Failed to delete file''), w)
      | Inr p \<Rightarrow>
          if p \<in> disk w then (Inr (), w\<lparr>disk := disk w - {p}\<rparr>)
          else (Inl (StorageError ''Failed to delete file''), w))"

section \<open>The queue (services/queue.service.ts over BullMQ)\<close>

text \<open>
  \<^verbatim>\<open>scanQueue.add(name, payload, {priority, delay, jobId})\<close>, by BullMQ's documented
  behaviour: the command fails when Redis cannot be reached; a job id that the queue
  already holds is not added again (the existing id is returned); otherwise the entry
  is appended.
\<close>

definition scanQueue_add ::
  "ScanJobPayload \<Rightarrow> int \<Rightarrow> int \<Rightarrow> string \<Rightarrow> World \<Rightarrow> (string + string) \<times> World" where
  "scanQueue_add payload pr dl qid w =
     (case redis_faults w of
        True # bs \<Rightarrow> (Inl ''Connection is closed.'', w\<lparr>redis_faults := bs\<rparr>)
      | _ \<Rightarrow>
          (let w1 = w\<lparr>redis_faults := tl (redis_faults w)\<rparr>
           in if qid \<in> set (map queue_job_id (queue w1)) then (Inr qid, w1)
              else (Inr qid,
                    w1\<lparr>queue := queue w1 @
                         [\<lparr>queue_job_id = qid, data = payload, opts_priority = pr,
                           opts_delay = dl, added_at = clock w1\<rparr>]\<rparr>)))"

text \<open>\<^verbatim>\<open>enqueueScanJob\<close>; \<open>None\<close> is an option that the caller leaves out.\<close>

definition enqueueScanJob ::
  "string \<Rightarrow> string \<Rightarrow> int option \<Rightarrow> int option \<Rightarrow> World \<Rightarrow> (app_error + string) \<times> World" where
  "enqueueScanJob job_ident path pr dl w =
     (case scanQueue_add \<lparr>jobId_payload = job_ident, filePath_payload = path, attempt_payload = 1\<rparr>
             (case pr of None \<Rightarrow> 0 | Some p \<Rightarrow> p) (case dl of None \<Rightarrow> 0 | Some d \<Rightarrow> d)
             job_ident w of
        (Inl m, w') \<Rightarrow> (Inl (QueueError ''Failed to add job to queue''), w')
      | (Inr qid, w') \<Rightarrow> (Inr qid, w'))"

text \<open>
  The order in which BullMQ hands waiting entries to a worker, by its documentation
  of the option \<^verbatim>\<open>priority\<close>: among prioritised entries (values 1 to 2097152) a lower
  number is served before a higher one, and entries of one priority are served in the
  order they were added. On entries without a priority (value 0) the versions of the
  library differ: since version 4 they are served before every prioritised entry,
  before that after them; \<open>unprioritised_first\<close> tells which. An entry is eligible
  once its delay has passed. The sort is stable.
\<close>

definition eligible :: "nat \<Rightarrow> QueueEntry \<Rightarrow> bool" where
  "eligible now e = (int (added_at e) + opts_delay e \<le> int now)"

definition delivery_order :: "bool \<Rightarrow> nat \<Rightarrow> QueueEntry list \<Rightarrow> QueueEntry list" where
  "delivery_order unprioritised_first now q =
     (let waiting = filter (eligible now) q;
          plain = filter (\<lambda>e. opts_priority e = 0) waiting;
          prioritised = sort_key opts_priority (filter (\<lambda>e. opts_priority e \<noteq> 0) waiting)
      in if unprioritised_first then plain @ prioritised else prioritised @ plain)"

definition next_delivery :: "bool \<Rightarrow> World \<Rightarrow> QueueEntry option" where
  "next_delivery unprioritised_first w =
     (case delivery_order unprioritised_first (clock w) (queue w) of
        [] \<Rightarrow> None
      | e # es \<Rightarrow> Some e)"

section \<open>The scanner service, as the worker sees it (services/scanner.service.ts)\<close>

text \<open>
  What the ClamAV daemon answers is the environment's choice: \<open>init_ok\<close> tells whether
  \<^verbatim>\<open>initScanner\<close> gets its connection, \<open>outcome\<close> is what \<^verbatim>\<open>scanFile\<close> ends with. Each
  call is recorded.
\<close>

definition initScanner :: "bool \<Rightarrow> World \<Rightarrow> (app_error + unit) \<times> World" where
  "initScanner init_ok w =
     (let w' = w\<lparr>scanner_calls := scanner_calls w @ [InitScanner]\<rparr>
      in if init_ok then (Inr (), w') else (Inl ScannerUnavailableError, w'))"

definition scanFile ::
  "string \<Rightarrow> app_error + ClamScanResult \<Rightarrow> World \<Rightarrow> (app_error + ClamScanResult) \<times> World" where
  "scanFile path outcome w = (outcome, w\<lparr>scanner_calls := scanner_calls w @ [ScanFile path]\<rparr>)"

section \<open>The worker (workers/scan.worker.ts)\<close>

text \<open>
  \<^verbatim>\<open>processScanJob\<close>. \<open>processScanJob_try\<close> is the body of its \<^verbatim>\<open>try\<close> block, an error
  being the exception that leaves the block; \<open>processScanJob\<close> adds the \<^verbatim>\<open>catch\<close>
  block: the job is set to \<^verbatim>\<open>failed\<close> with the error's message and the error is thrown
  again (an error of that update is thrown in its place).
\<close>

definition resultType :: "ClamScanResult \<Rightarrow> ScanResultType" where
  "resultType scanResult =
     (if error_clam scanResult \<noteq> None \<and> error_clam scanResult \<noteq> Some [] then ERROR
      else if isInfected_clam scanResult then INFECTED
      else CLEAN)"

definition processScanJob_try ::
  "ScanJobPayload \<Rightarrow> string \<Rightarrow> bool \<Rightarrow> app_error + ClamScanResult \<Rightarrow> World \<Rightarrow>
   (app_error + unit) \<times> World" where
  "processScanJob_try payload uuid init_ok outcome w =
     (case updateJobStatus (jobId_payload payload) PROCESSING None w of
        (Inl e, w1) \<Rightarrow> (Inl e, w1)
      | (Inr j, w1) \<Rightarrow>
          if \<not> fileExists (path_basename (filePath_payload payload)) w1
          then (Inl (JsError (''File not found: '' @ filePath_payload payload)), w1)
          else
            (case initScanner init_ok w1 of
               (Inl e, w2) \<Rightarrow> (Inl e, w2)
             | (Inr u, w2) \<Rightarrow>
                 (case scanFile (filePath_payload payload) outcome w2 of
                    (Inl e, w3) \<Rightarrow> (Inl e, w3)
                  | (Inr scanResult, w3) \<Rightarrow>
                      completeJobWithResult uuid (jobId_payload payload)
                        \<lparr>result_in = resultType scanResult,
                         isInfected = isInfected_clam scanResult,
                         threatName = (case viruses scanResult of [] \<Rightarrow> None
                                       | v # vs \<Rightarrow> Some v),
                         scanDurationMs = scanDurationMs_clam scanResult\<rparr> w3)))"

definition processScanJob ::
  "ScanJobPayload \<Rightarrow> string \<Rightarrow> bool \<Rightarrow> app_error + ClamScanResult \<Rightarrow> World \<Rightarrow>
   (app_error + unit) \<times> World" where
  "processScanJob payload uuid init_ok outcome w =
     (case processScanJob_try payload uuid init_ok outcome w of
        (Inr u, w') \<Rightarrow> (Inr (), w')
      | (Inl e, w') \<Rightarrow>
          (case updateJobStatus (jobId_payload payload) FAILED (Some (message e)) w' of
             (Inl e2, w'') \<Rightarrow> (Inl e2, w'')
           | (Inr j, w'') \<Rightarrow> (Inl e, w'')))"

section \<open>The upload route (api/routes/scan.ts)\<close>

text \<open>
  The handler of \<^verbatim>\<open>POST /scan\<close> from the point where \<^verbatim>\<open>saveFile\<close> has returned
  \<open>storedFile\<close>: the job is created and enqueued inside a \<^verbatim>\<open>try\<close>; the \<^verbatim>\<open>catch\<close> deletes
  the stored file (an error of the deletion is logged and dropped) and throws the
  error again. \<open>pr\<close> is the parsed form field \<^verbatim>\<open>priority\<close>; the result is the accepted
  job.
\<close>

definition post_scan ::
  "StoredFile \<Rightarrow> string \<Rightarrow> string \<Rightarrow> int \<Rightarrow> string \<Rightarrow> World \<Rightarrow> (app_error + JobRow) \<times> World" where
  "post_scan storedFile originalname mimetype pr uuid w =
     (let cleanup = (\<lambda>e w'. (Inl e, snd (deleteFile (storedFilename_sf storedFile) w')))
      in case createJob uuid
                \<lparr>originalFilename_in = Some originalname,
                 storedFilename_in = Some (storedFilename_sf storedFile),
                 filePath_in = Some (filePath_sf storedFile),
                 fileSize_in = Some (fileSize_sf storedFile),
                 mimeType_in = Some mimetype,
                 checksum_in = Some (checksum_sf storedFile),
                 priority_in = Some (min (max pr 0) 10)\<rparr> w of
           (Inl e, w1) \<Rightarrow> cleanup e w1
         | (Inr job, w1) \<Rightarrow>
             (case enqueueScanJob (id_jobs job) (filePath_sf storedFile)
                     (Some (priority job)) None w1 of
                (Inl e, w2) \<Rightarrow> cleanup e w2
              | (Inr qid, w2) \<Rightarrow> (Inr job, w2)))"

section \<open>Sequences of calls, invariants and sample values\<close>

text \<open>
  The calls that the service makes to the job store: \<^verbatim>\<open>createJob\<close> (the upload
  route), the two status updates of the worker (into \<^verbatim>\<open>processing\<close>, and into
  \<^verbatim>\<open>failed\<close> with a message) and \<^verbatim>\<open>completeJobWithResult\<close>. A state of the store is
  reachable when a sequence of such calls leads to it from empty tables, whatever
  statements the infrastructure loses on the way.
\<close>

datatype store_call =
    CreateJob string CreateJobInput
  | ToProcessing string
  | ToFailed string string
  | Complete string string ResultData

fun store_step :: "store_call \<Rightarrow> World \<Rightarrow> World" where
  "store_step (CreateJob uuid input) w = snd (createJob uuid input w)"
| "store_step (ToProcessing jobId) w = snd (updateJobStatus jobId PROCESSING None w)"
| "store_step (ToFailed jobId m) w = snd (updateJobStatus jobId FAILED (Some m) w)"
| "store_step (Complete uuid jobId r) w = snd (completeJobWithResult uuid jobId r w)"

definition store_run :: "store_call list \<Rightarrow> World \<Rightarrow> World" where
  "store_run cs w = fold store_step cs w"

definition empty_db :: Db where
  "empty_db = \<lparr>jobs = [], scan_results = []\<rparr>"

text \<open>The job with id \<open>jobId\<close>, as \<^verbatim>\<open>getJobById\<close> reads it from the table.\<close>

definition job_of :: "string \<Rightarrow> Db \<Rightarrow> JobRow option" where
  "job_of jobId d = find (\<lambda>r. id_jobs r = jobId) (jobs d)"

text \<open>The rows of \<^verbatim>\<open>scan_results\<close> that belong to job \<open>jobId\<close>.\<close>

definition results_of :: "string \<Rightarrow> Db \<Rightarrow> ScanResultRow list" where
  "results_of jobId d = filter (\<lambda>r. job_id r = jobId) (scan_results d)"

text \<open>The invariant \<^verbatim>\<open>attempts <= maxAttempts\<close>, for every row of the table.\<close>

definition attempts_bounded :: "Db \<Rightarrow> bool" where
  "attempts_bounded d = list_all (\<lambda>j. attempts j \<le> max_attempts j) (jobs d)"

text \<open>
  A world with empty tables, nothing on disk, an empty queue and no fault scheduled,
  running in \<^verbatim>\<open>/app\<close> with the default upload directory; and sample arguments.
\<close>

definition world0 :: World where
  "world0 = \<lparr>db = empty_db, clock = 100, pg_faults = [], cwd = ''/app'',
             config_uploadDir = ''./uploads'', disk = {}, queue = [], redis_faults = [],
             scanner_calls = []\<rparr>"

definition input_a :: CreateJobInput where
  "input_a = \<lparr>originalFilename_in = Some ''a.pdf'', storedFilename_in = Some ''17-ab-a.pdf'',
              filePath_in = Some ''/app/uploads/17-ab-a.pdf'', fileSize_in = Some 10,
              mimeType_in = Some ''application/pdf'', checksum_in = Some ''abc123'',
              priority_in = Some 5\<rparr>"

definition clean_data :: ResultData where
  "clean_data = \<lparr>result_in = CLEAN, isInfected = False, threatName = None,
                 scanDurationMs = 42\<rparr>"

text \<open>The world after one job has been created, and four pick-ups of that job.\<close>

definition world_j1 :: World where
  "world_j1 = store_run [CreateJob ''j1'' input_a] world0"

definition four_pickups :: "store_call list" where
  "four_pickups = [CreateJob ''j1'' input_a, ToProcessing ''j1'', ToProcessing ''j1'',
                   ToProcessing ''j1'', ToProcessing ''j1'']"


text \<open>
  What the service keeps of the one-result-per-job rule: a job that is \<^verbatim>\<open>completed\<close>
  has at least one row in \<^verbatim>\<open>scan_results\<close>, and every row of \<^verbatim>\<open>scan_results\<close> belongs
  to a job of the table.
\<close>

definition store_inv :: "Db \<Rightarrow> bool" where
  "store_inv d =
     (list_all (\<lambda>j. status j = COMPLETED \<longrightarrow> results_of (id_jobs j) d \<noteq> []) (jobs d) \<and>
      list_all (\<lambda>r. job_id r \<in> set (map id_jobs (jobs d))) (scan_results d))"

text \<open>
  Sample runs of the store: a job picked up and completed; then picked up again; then
  completed again. And a job that fails on its first attempt.
\<close>

definition completed_once :: "store_call list" where
  "completed_once = [CreateJob ''j1'' input_a, ToProcessing ''j1'',
                     Complete ''r1'' ''j1'' clean_data]"

definition picked_up_again :: "store_call list" where
  "picked_up_again = completed_once @ [ToProcessing ''j1'']"

definition completed_twice :: "store_call list" where
  "completed_twice = picked_up_again @ [Complete ''r2'' ''j1'' clean_data]"

definition failed_once :: "store_call list" where
  "failed_once = [CreateJob ''j1'' input_a, ToProcessing ''j1'', ToFailed ''j1'' ''boom'']"

text \<open>
  Sample deliveries to the worker: the payload of job \<^verbatim>\<open>j1\<close>, a scan that finds
  nothing, and the world in which the job's file is on disk.
\<close>

definition payload_a :: ScanJobPayload where
  "payload_a = \<lparr>jobId_payload = ''j1'', filePath_payload = ''/app/uploads/17-ab-a.pdf'',
                attempt_payload = 1\<rparr>"

definition clean_scan :: "app_error + ClamScanResult" where
  "clean_scan = Inr \<lparr>isInfected_clam = False, viruses = [], scannedFiles = 1,
                     scanDurationMs_clam = 42, error_clam = None\<rparr>"

definition world_file :: World where
  "world_file = world_j1\<lparr>disk := {''/app/uploads/17-ab-a.pdf''}\<rparr>"

definition delivered_once :: World where
  "delivered_once = snd (processScanJob payload_a ''r1'' True clean_scan world_file)"

definition delivered_twice :: World where
  "delivered_twice = snd (processScanJob payload_a ''r2'' True clean_scan delivered_once)"

text \<open>
  Sample uploads: the stored file of \<open>input_a\<close> on disk while Redis loses the next
  command; and two jobs \<^verbatim>\<open>A\<close> (priority 5) and \<^verbatim>\<open>B\<close> (priority 1) created and enqueued
  at the same time.
\<close>

definition stored_a :: StoredFile where
  "stored_a = \<lparr>storedFilename_sf = ''17-ab-a.pdf'', filePath_sf = ''/app/uploads/17-ab-a.pdf'',
               fileSize_sf = 10, checksum_sf = ''abc123''\<rparr>"

definition stored_b :: StoredFile where
  "stored_b = \<lparr>storedFilename_sf = ''17-cd-b.pdf'', filePath_sf = ''/app/uploads/17-cd-b.pdf'',
               fileSize_sf = 10, checksum_sf = ''def456''\<rparr>"

definition world_redis_down :: World where
  "world_redis_down = world0\<lparr>disk := {''/app/uploads/17-ab-a.pdf''}, redis_faults := [True]\<rparr>"

definition world_two_files :: World where
  "world_two_files =
     world0\<lparr>disk := {''/app/uploads/17-ab-a.pdf'', ''/app/uploads/17-cd-b.pdf''}\<rparr>"

definition world_A :: World where
  "world_A = snd (post_scan stored_a ''a.pdf'' ''application/pdf'' 5 ''A'' world_two_files)"

definition world_A_B :: World where
  "world_A_B = snd (post_scan stored_b ''b.pdf'' ''application/pdf'' 1 ''B'' world_A)"

definition upload_failed :: World where
  "upload_failed =
     snd (post_scan stored_a ''a.pdf'' ''application/pdf'' 5 ''A'' world_redis_down)"

text \<open>The world in which job \<^verbatim>\<open>j1\<close> has been picked up; an input without a file name.\<close>

definition world_processing :: World where
  "world_processing = store_run [CreateJob ''j1'' input_a, ToProcessing ''j1''] world0"

definition input_no_name :: CreateJobInput where
  "input_no_name = input_a\<lparr>originalFilename_in := None\<rparr>"

text \<open>An input whose file name has 256 characters, one more than the column takes.\<close>

definition input_long_name :: CreateJobInput where
  "input_long_name = input_a\<lparr>originalFilename_in := Some (replicate 256 (CHR ''a''))\<rparr>"

text \<open>
  A segment of a normalised path: not empty, neither \<^verbatim>\<open>.\<close> nor \<^verbatim>\<open>..\<close>, and without a
  slash.
\<close>

definition clean_segment :: "string \<Rightarrow> bool" where
  "clean_segment s = (s \<noteq> [] \<and> s \<noteq> ''.'' \<and> s \<noteq> ''..'' \<and> CHR ''/'' \<notin> set s)"

section \<open>Properties\<close>

subsection \<open>The sample worlds, evaluated\<close>

text \<open>
  The values of four sample worlds, computed once from their definitions; later
  evaluations start from these values.
\<close>

lemma world_j1_value [code]:
  "world_j1 =
     \<lparr>db = \<lparr>jobs =
             [\<lparr>id_jobs = ''j1'', original_filename = ''a.pdf'',
               stored_filename = ''17-ab-a.pdf'',
               file_path = ''/app/uploads/17-ab-a.pdf'', file_size = 10,
               mime_type = Some ''application/pdf'', checksum = Some ''abc123'',
               status = PENDING, priority = 5, attempts = 0, max_attempts = 3,
               error_message = None, created_at = 100, updated_at = 100,
               started_at = None, completed_at = None\<rparr>],
            scan_results = []\<rparr>,
      clock = 100, pg_faults = [], cwd = ''/app'', config_uploadDir = ''./uploads'',
      disk = {}, queue = [], redis_faults = [], scanner_calls = []\<rparr>"
  by code_simp

lemma delivered_once_value [code]:
  "delivered_once =
     \<lparr>db = \<lparr>jobs =
             [\<lparr>id_jobs = ''j1'', original_filename = ''a.pdf'',
               stored_filename = ''17-ab-a.pdf'',
               file_path = ''/app/uploads/17-ab-a.pdf'', file_size = 10,
               mime_type = Some ''application/pdf'', checksum = Some ''abc123'',
               status = COMPLETED, priority = 5, attempts = 1, max_attempts = 3,
               error_message = None, created_at = 100, updated_at = 100,
               started_at = Some 100, completed_at = Some 100\<rparr>],
            scan_results =
             [\<lparr>id_scan_results = ''r1'', job_id = ''j1'', result = CLEAN,
               is_infected = False, threat_name = None, threat_category = None,
               threat_description = None, scanner_version = None,
               definition_version = None, scan_duration_ms = 42, scanned_at = 100\<rparr>]\<rparr>,
      clock = 100, pg_faults = [], cwd = ''/app'', config_uploadDir = ''./uploads'',
      disk = {''/app/uploads/17-ab-a.pdf''}, queue = [], redis_faults = [],
      scanner_calls = [InitScanner, ScanFile ''/app/uploads/17-ab-a.pdf'']\<rparr>"
  by code_simp

lemma delivered_twice_value [code]:
  "delivered_twice =
     \<lparr>db = \<lparr>jobs =
             [\<lparr>id_jobs = ''j1'', original_filename = ''a.pdf'',
               stored_filename = ''17-ab-a.pdf'',
               file_path = ''/app/uploads/17-ab-a.pdf'', file_size = 10,
               mime_type = Some ''application/pdf'', checksum = Some ''abc123'',
               status = COMPLETED, priority = 5, attempts = 2, max_attempts = 3,
               error_message = None, created_at = 100, updated_at = 100,
               started_at = Some 100, completed_at = Some 100\<rparr>],
            scan_results =
             [\<lparr>id_scan_results = ''r1'', job_id = ''j1'', result = CLEAN,
               is_infected = False, threat_name = None, threat_category = None,
               threat_description = None, scanner_version = None,
               definition_version = None, scan_duration_ms = 42, scanned_at = 100\<rparr>,
              \<lparr>id_scan_results = ''r2'', job_id = ''j1'', result = CLEAN,
               is_infected = False, threat_name = None, threat_category = None,
               threat_description = None, scanner_version = None,
               definition_version = None, scan_duration_ms = 42, scanned_at = 100\<rparr>]\<rparr>,
      clock = 100, pg_faults = [], cwd = ''/app'', config_uploadDir = ''./uploads'',
      disk = {''/app/uploads/17-ab-a.pdf''}, queue = [], redis_faults = [],
      scanner_calls = [InitScanner, ScanFile ''/app/uploads/17-ab-a.pdf'',
                       InitScanner, ScanFile ''/app/uploads/17-ab-a.pdf'']\<rparr>"
  by code_simp

lemma world_A_value [code]:
  "world_A =
     \<lparr>db = \<lparr>jobs =
             [\<lparr>id_jobs = ''A'', original_filename = ''a.pdf'',
               stored_filename = ''17-ab-a.pdf'',
               file_path = ''/app/uploads/17-ab-a.pdf'', file_size = 10,
               mime_type = Some ''application/pdf'', checksum = Some ''abc123'',
               status = PENDING, priority = 5, attempts = 0, max_attempts = 3,
               error_message = None, created_at = 100, updated_at = 100,
               started_at = None, completed_at = None\<rparr>],
            scan_results = []\<rparr>,
      clock = 100, pg_faults = [], cwd = ''/app'', config_uploadDir = ''./uploads'',
      disk = {''/app/uploads/17-ab-a.pdf'', ''/app/uploads/17-cd-b.pdf''},
      queue =
        [\<lparr>queue_job_id = ''A'',
          data = \<lparr>jobId_payload = ''A'', filePath_payload = ''/app/uploads/17-ab-a.pdf'',
                   attempt_payload = 1\<rparr>,
          opts_priority = 5, opts_delay = 0, added_at = 100\<rparr>],
      redis_faults = [], scanner_calls = []\<rparr>"
  by code_simp

subsection \<open>What one statement does to the world\<close>

lemma pg_send_frame:
  "pg_send stmt w = (res, w') \<Longrightarrow> w' = (consume_fault w)\<lparr>db := db w'\<rparr>"
  by (auto simp: pg_send_def consume_fault_def split: if_splits sum.splits)

lemma pg_send_cases:
  "pg_send stmt w = (res, w') \<Longrightarrow>
     (\<exists>m. res = Inl m \<and> db w' = db w) \<or>
     (\<exists>r. res = Inr r \<and> stmt (clock w) (db w) = Inr (db w', r))"
  by (auto simp: pg_send_def consume_fault_def split: if_splits sum.splits)

lemma query_frame:
  "query stmt w = (res, w') \<Longrightarrow> w' = (consume_fault w)\<lparr>db := db w'\<rparr>"
  by (auto simp: query_def split: prod.splits sum.splits dest: pg_send_frame)

lemma query_cases:
  "query stmt w = (res, w') \<Longrightarrow>
     (res = Inl (DatabaseError ''Database query failed'') \<and> db w' = db w) \<or>
     (\<exists>r. res = Inr r \<and> stmt (clock w) (db w) = Inr (db w', r))"
  by (auto simp: query_def split: prod.splits sum.splits dest: pg_send_cases)

lemma client_query_frame:
  "client_query stmt w = (res, w') \<Longrightarrow> w' = (consume_fault w)\<lparr>db := db w'\<rparr>"
  by (auto simp: client_query_def split: prod.splits sum.splits dest: pg_send_frame)

lemma client_query_cases:
  "client_query stmt w = (res, w') \<Longrightarrow>
     (\<exists>m. res = Inl (PgError m) \<and> db w' = db w) \<or>
     (\<exists>r. res = Inr r \<and> stmt (clock w) (db w) = Inr (db w', r))"
  by (auto simp: client_query_def split: prod.splits sum.splits dest: pg_send_cases)

lemma clock_consume_fault [simp]: "clock (consume_fault w) = clock w"
  by (simp add: consume_fault_def)

lemma client_query_clock:
  "client_query stmt w = (res, w') \<Longrightarrow> clock w' = clock w"
  by (auto simp: client_query_def pg_send_def consume_fault_def
      split: prod.splits sum.splits if_splits)

subsection \<open>Transactions\<close>

lemma rollback_cases:
  "rollback saved e w = (res, w') \<Longrightarrow> (\<exists>e'. res = Inl e') \<and> db w' = saved"
  unfolding rollback_def
  by (auto simp: client_query_def pg_send_def consume_fault_def no_rows_def
      split: prod.splits sum.splits if_splits)

lemma begin_commit_cases:
  "client_query no_rows w = (res, w') \<Longrightarrow> db w' = db w \<and> clock w' = clock w"
  by (auto simp: client_query_def pg_send_def consume_fault_def no_rows_def
      split: prod.splits sum.splits if_splits)

lemma withTransaction_cases:
  assumes "withTransaction fn w = (res, w')"
  shows "((\<exists>e. res = Inl e) \<and> db w' = db w) \<or>
         (\<exists>w1 w2 r. db w1 = db w \<and> clock w1 = clock w \<and> fn w1 = (Inr r, w2) \<and> res = Inr r \<and> db w' = db w2)"
  using assms unfolding withTransaction_def Let_def
  by (auto split: prod.splits sum.splits dest!: rollback_cases begin_commit_cases)

lemma completeJobWithResult_cases:
  assumes "completeJobWithResult uuid jobId r w = (res, w')"
  shows "((\<exists>e. res = Inl e) \<and> db w' = db w) \<or>
         (res = Inr () \<and> uuid \<notin> set (map id_scan_results (scan_results (db w))) \<and>
          jobId \<in> set (map id_jobs (jobs (db w))) \<and>
          db w' = update_job jobId (mark_completed (clock w))
                    ((db w)\<lparr>scan_results := scan_results (db w) @
                               [new_scan_result uuid jobId r (clock w)]\<rparr>))"
proof -
  from withTransaction_cases [OF assms [unfolded completeJobWithResult_def]]
  show ?thesis
  proof (elim disjE exE conjE)
    fix w1 w2 u
    assume h: "db w1 = db w" "clock w1 = clock w" "res = Inr u" "db w' = db w2"
      and body: "(case client_query (insert_scan_result uuid jobId r) w1 of
          (Inl e, w1) \<Rightarrow> (Inl e, w1)
        | (Inr u, w1) \<Rightarrow> client_query (complete_job jobId) w1) = (Inr u, w2)"
    obtain a wa where q1: "client_query (insert_scan_result uuid jobId r) w1 = (a, wa)"
      by (cases "client_query (insert_scan_result uuid jobId r) w1")
    with body obtain x where a: "a = Inr x"
      and q2: "client_query (complete_job jobId) wa = (Inr u, w2)"
      by (cases a) auto
    from client_query_cases [OF q1] a
    have i: "insert_scan_result uuid jobId r (clock w) (db w) = Inr (db wa, x)"
      using h by auto
    from client_query_clock [OF q1] have c: "clock wa = clock w" using h by simp
    from client_query_cases [OF q2] c
    have "db w2 = update_job jobId (mark_completed (clock w)) (db wa)"
      by (auto simp: complete_job_def)
    with i h show ?thesis
      by (auto simp: insert_scan_result_def split: if_splits)
  qed auto
qed

subsection \<open>The statements of the job store\<close>

lemma id_jobs_set_status [simp]: "id_jobs (set_status st m now r) = id_jobs r"
  by (simp add: set_status_def Let_def split: option.splits)

lemma max_attempts_set_status [simp]: "max_attempts (set_status st m now r) = max_attempts r"
  by (simp add: set_status_def Let_def split: option.splits)

lemma attempts_set_status [simp]:
  "attempts (set_status st m now r) = (if st = PROCESSING then attempts r + 1 else attempts r)"
  by (simp add: set_status_def Let_def split: option.splits)

lemma status_set_status [simp]: "status (set_status st m now r) = st"
  by (simp add: set_status_def Let_def split: option.splits)

lemma completed_at_set_status [simp]:
  "completed_at (set_status st m now r) =
     (if st = COMPLETED \<or> st = FAILED then Some now else completed_at r)"
  by (simp add: set_status_def Let_def split: option.splits)

lemma error_message_set_status [simp]:
  "error_message (set_status st m now r) = (case m of None \<Rightarrow> error_message r | Some x \<Rightarrow> Some x)"
  by (simp add: set_status_def Let_def split: option.splits)

lemma scan_results_update_job [simp]: "scan_results (update_job jobId f d) = scan_results d"
  by (simp add: update_job_def)

lemma ids_update_job:
  "(\<And>r. id_jobs (f r) = id_jobs r) \<Longrightarrow>
     map id_jobs (jobs (update_job jobId f d)) = map id_jobs (jobs d)"
  by (simp add: update_job_def)

lemma find_update:
  "(\<And>r. id_jobs (f r) = id_jobs r) \<Longrightarrow>
     find (\<lambda>r. id_jobs r = k) (map (\<lambda>r. if id_jobs r = jobId then f r else r) xs) =
       (if k = jobId then map_option f (find (\<lambda>r. id_jobs r = k) xs)
        else find (\<lambda>r. id_jobs r = k) xs)"
  by (induction xs) auto

lemma job_of_update_job:
  "(\<And>r. id_jobs (f r) = id_jobs r) \<Longrightarrow>
     job_of k (update_job jobId f d) =
       (if k = jobId then map_option f (job_of k d) else job_of k d)"
  unfolding job_of_def update_job_def by (simp add: find_update)


lemma filter_find:
  "(case filter P xs of [] \<Rightarrow> None | r # rs \<Rightarrow> Some r) = find P xs"
  by (induction xs) auto

lemma updateJobStatus_cases:
  assumes "updateJobStatus jobId st msg w = (res, w')"
  shows "(res = Inl (DatabaseError ''Database query failed'') \<and> db w' = db w) \<or>
         (db w' = update_job jobId (set_status st msg (clock w)) (db w) \<and>
          res = (case job_of jobId (db w) of
                   None \<Rightarrow> Inl (NotFoundError ''Job'' jobId)
                 | Some j \<Rightarrow> Inr (set_status st msg (clock w) j)))"
proof -
  obtain a wa where q: "query (update_status jobId st msg) w = (a, wa)"
    by (cases "query (update_status jobId st msg) w")
  from query_cases [OF q] show ?thesis
  proof (elim disjE exE conjE)
    assume "a = Inl (DatabaseError ''Database query failed'')" "db wa = db w"
    with q assms show ?thesis by (simp add: updateJobStatus_def)
  next
    fix rows
    assume a: "a = Inr rows"
      and u: "update_status jobId st msg (clock w) (db w) = Inr (db wa, rows)"
    from u have d: "db wa = update_job jobId (set_status st msg (clock w)) (db w)"
      and rows: "rows = map (set_status st msg (clock w))
                          (filter (\<lambda>r. id_jobs r = jobId) (jobs (db w)))"
      by (auto simp: update_status_def)
    have "job_of jobId (db w) =
            (case filter (\<lambda>r. id_jobs r = jobId) (jobs (db w)) of [] \<Rightarrow> None | r # rs \<Rightarrow> Some r)"
      by (simp add: job_of_def filter_find)
    with q a assms d rows show ?thesis
      by (auto simp: updateJobStatus_def split: list.splits)
  qed
qed

lemma attempts_bounded_update_job:
  "attempts_bounded d \<Longrightarrow>
   (\<And>r. attempts r \<le> max_attempts r \<Longrightarrow> attempts (f r) \<le> max_attempts (f r)) \<Longrightarrow>
   attempts_bounded (update_job jobId f d)"
  by (auto simp: attempts_bounded_def update_job_def list_all_iff)

lemma createJob_cases:
  assumes "createJob uuid input w = (res, w')"
  shows "(res = Inl (DatabaseError ''Database query failed'') \<and> db w' = db w) \<or>
         (\<exists>row. res = Inr row \<and>
            insert_job uuid (originalFilename_in input) (storedFilename_in input)
              (filePath_in input) (fileSize_in input) (mimeType_in input) (checksum_in input)
              (case priority_in input of None \<Rightarrow> 0 | Some p \<Rightarrow> p) (clock w) (db w) =
            Inr (db w', row))"
  using query_cases [OF assms [unfolded createJob_def]] by auto

lemma varchar_Some: "varchar n s = Some t \<Longrightarrow> length t \<le> n \<and> CHR 0x00 \<notin> set t"
  by (auto simp: varchar_def split: if_splits dest: in_set_takeD)

lemma varchar_same: "CHR 0x00 \<notin> set s \<Longrightarrow> length s \<le> n \<Longrightarrow> varchar n s = Some s"
  by (simp add: varchar_def)

lemma job_row_Some:
  assumes "job_row i ofn sfn fp sz mt cs pr now = Some row"
  shows "id_jobs row = i \<and> status row = PENDING \<and> attempts row = 0 \<and>
         max_attempts row = 3 \<and> priority row = pr \<and> started_at row = None \<and>
         completed_at row = None \<and> error_message row = None \<and>
         (\<exists>a. ofn = Some a \<and> varchar 255 a = Some (original_filename row)) \<and>
         (\<exists>b. sfn = Some b \<and> varchar 255 b = Some (stored_filename row)) \<and>
         (\<exists>c. fp = Some c \<and> varchar 500 c = Some (file_path row)) \<and>
         sz = Some (file_size row) \<and> bigint_range (file_size row) \<and> integer_range pr \<and>
         varchar_null 100 mt = Some (mime_type row) \<and>
         varchar_null 64 cs = Some (checksum row)"
  using assms
  by (simp add: job_row_def split: option.splits if_splits) auto

lemma job_row_None_iff:
  "job_row i ofn sfn fp sz mt cs pr now = None \<longleftrightarrow>
     ofn = None \<or> sfn = None \<or> fp = None \<or> sz = None \<or>
     \<not> fits 255 ofn \<or> \<not> fits 255 sfn \<or> \<not> fits 500 fp \<or> \<not> fits 100 mt \<or> \<not> fits 64 cs \<or>
     (\<exists>n. sz = Some n \<and> \<not> bigint_range n) \<or> \<not> integer_range pr"
  by (auto simp: job_row_def fits_def varchar_null_def split: option.splits if_splits)

lemma insert_job_Inr:
  assumes "insert_job i ofn sfn fp sz mt cs pr now d = Inr (d', row)"
  shows "i \<notin> set (map id_jobs (jobs d)) \<and> jobs d' = jobs d @ [row] \<and>
         scan_results d' = scan_results d \<and>
         job_row i ofn sfn fp sz mt cs pr now = Some row"
  using assms
  by (auto simp: insert_job_def split: option.splits if_splits)

lemma insert_job_row:
  assumes "insert_job i ofn sfn fp sz mt cs pr now d = Inr (d', row)"
  shows "id_jobs row = i \<and> status row = PENDING \<and> attempts row = 0 \<and> max_attempts row = 3"
  using insert_job_Inr [OF assms] job_row_Some [of i ofn sfn fp sz mt cs pr now row]
  by simp

lemma list_all_map_if:
  "list_all P (map (\<lambda>r. if Q r then f r else r) xs) \<longleftrightarrow>
     (\<forall>r\<in>set xs. if Q r then P (f r) else P r)"
  by (induction xs) auto

lemma find_unique:
  "distinct (map f xs) \<Longrightarrow> find (\<lambda>r. f r = k) xs = Some j \<Longrightarrow> r \<in> set xs \<Longrightarrow> f r = k \<Longrightarrow>
     r = j"
  by (induction xs) (auto split: if_splits)

lemma job_of_unique:
  "distinct (map id_jobs (jobs d)) \<Longrightarrow> job_of k d = Some j \<Longrightarrow>
     r \<in> set (jobs d) \<Longrightarrow> id_jobs r = k \<Longrightarrow> r = j"
  unfolding job_of_def by (rule find_unique)

lemma job_of_in_jobs: "job_of jobId d = Some j \<Longrightarrow> j \<in> set (jobs d) \<and> id_jobs j = jobId"
  unfolding job_of_def by (auto simp: find_Some_iff in_set_conv_nth)

lemma query_no_fault:
  "\<not> next_fault w \<Longrightarrow> stmt (clock w) (db w) = Inr (d, r) \<Longrightarrow>
     query stmt w = (Inr r, (consume_fault w)\<lparr>db := d\<rparr>)"
  by (simp add: query_def pg_send_def)

lemma updateJobStatus_no_fault:
  assumes "\<not> next_fault w" and "job_of jobId (db w) = Some j"
  shows "fst (updateJobStatus jobId st msg w) = Inr (set_status st msg (clock w) j) \<and>
         db (snd (updateJobStatus jobId st msg w)) =
           update_job jobId (set_status st msg (clock w)) (db w)"
proof -
  obtain res w' where u: "updateJobStatus jobId st msg w = (res, w')"
    by (cases "updateJobStatus jobId st msg w")
  have "query (update_status jobId st msg) w =
          (Inr (map (set_status st msg (clock w))
                  (filter (\<lambda>r. id_jobs r = jobId) (jobs (db w)))),
           (consume_fault w)\<lparr>db := update_job jobId (set_status st msg (clock w)) (db w)\<rparr>)"
    by (rule query_no_fault [OF assms(1)]) (simp add: update_status_def)
  with u have "res \<noteq> Inl (DatabaseError ''Database query failed'')"
    by (auto simp: updateJobStatus_def split: list.splits)
  with updateJobStatus_cases [OF u] assms(2) show ?thesis
    by (auto simp: u)
qed

subsection \<open>Attempts and maxAttempts\<close>

text \<open>
  Claim C1, as the code has it. \<^verbatim>\<open>updateJobStatus\<close>, when it returns, has written the
  returned row to the table in place of the job and has left every other job as it
  was; \<^verbatim>\<open>maxAttempts\<close> is unchanged, and \<^verbatim>\<open>attempts\<close> is changed only by a transition
  into \<^verbatim>\<open>processing\<close>, which adds exactly 1 and never looks at \<^verbatim>\<open>maxAttempts\<close>. So the
  invariant \<^verbatim>\<open>attempts <= maxAttempts\<close> is kept by \<^verbatim>\<open>createJob\<close>, by
  \<^verbatim>\<open>completeJobWithResult\<close> and by every status update other than into \<^verbatim>\<open>processing\<close>;
  a transition into \<^verbatim>\<open>processing\<close> that returns keeps it exactly when the job had
  \<^verbatim>\<open>attempts < maxAttempts\<close> before (ids being unique, as the primary key makes them);
  and nothing stops a further transition: whatever \<^verbatim>\<open>attempts\<close> and \<^verbatim>\<open>maxAttempts\<close> of an
  existing job are (\<^verbatim>\<open>attempts\<close> below the bound of its \<^verbatim>\<open>INTEGER\<close> column), the
  transition into \<^verbatim>\<open>processing\<close> returns when its statement is not lost, the stored
  \<^verbatim>\<open>attempts\<close> one higher.
\<close>

theorem attempts_change_only_into_processing:
  "(updateJobStatus jobId st msg w = (Inr j', w') \<longrightarrow>
      (\<exists>j. job_of jobId (db w) = Some j \<and> job_of jobId (db w') = Some j' \<and>
           max_attempts j' = max_attempts j \<and>
           attempts j' = (if st = PROCESSING then attempts j + 1 else attempts j)) \<and>
      (\<forall>k. k \<noteq> jobId \<longrightarrow> job_of k (db w') = job_of k (db w))) \<and>
   (attempts_bounded (db w) \<and> st \<noteq> PROCESSING \<longrightarrow>
      attempts_bounded (db (snd (updateJobStatus jobId st msg w)))) \<and>
   (attempts_bounded (db w) \<longrightarrow> attempts_bounded (db (snd (createJob uuid input w)))) \<and>
   (attempts_bounded (db w) \<longrightarrow>
      attempts_bounded (db (snd (completeJobWithResult uuid jobId r w)))) \<and>
   (attempts_bounded (db w) \<and> distinct (map id_jobs (jobs (db w))) \<and>
    job_of jobId (db w) = Some jb \<and>
    updateJobStatus jobId PROCESSING msg w = (Inr j', w') \<longrightarrow>
      (attempts_bounded (db w') \<longleftrightarrow> attempts jb < max_attempts jb)) \<and>
   (job_of jobId (db w) = Some jb \<and> attempts jb < 2147483647 \<and> \<not> next_fault w \<longrightarrow>
      (\<exists>jn. fst (updateJobStatus jobId PROCESSING msg w) = Inr jn \<and>
            job_of jobId (db (snd (updateJobStatus jobId PROCESSING msg w))) = Some jn \<and>
            attempts jn = attempts jb + 1 \<and> max_attempts jn = max_attempts jb))"
proof -
  have one: "(\<exists>j. job_of jobId (db w) = Some j \<and> job_of jobId (db w') = Some j' \<and>
           max_attempts j' = max_attempts j \<and>
           attempts j' = (if st = PROCESSING then attempts j + 1 else attempts j)) \<and>
      (\<forall>k. k \<noteq> jobId \<longrightarrow> job_of k (db w') = job_of k (db w))"
    if a: "updateJobStatus jobId st msg w = (Inr j', w')"
  proof -
    from updateJobStatus_cases [OF a] obtain j where
      j: "job_of jobId (db w) = Some j"
      and j': "j' = set_status st msg (clock w) j"
      and d: "db w' = update_job jobId (set_status st msg (clock w)) (db w)"
      by (auto split: option.splits)
    have "job_of jobId (db w') = Some j'"
      unfolding d j' using j by (simp add: job_of_update_job)
    moreover have "\<forall>k. k \<noteq> jobId \<longrightarrow> job_of k (db w') = job_of k (db w)"
      unfolding d by (simp add: job_of_update_job)
    ultimately show ?thesis using j j' by simp
  qed
  have two: "attempts_bounded (db (snd (updateJobStatus jobId st msg w)))"
    if a: "attempts_bounded (db w) \<and> st \<noteq> PROCESSING"
  proof -
    obtain res w1 where u: "updateJobStatus jobId st msg w = (res, w1)"
      by (cases "updateJobStatus jobId st msg w")
    from updateJobStatus_cases [OF u] a show ?thesis
      by (auto simp: u attempts_bounded_def update_job_def list_all_iff)
  qed
  have three: "attempts_bounded (db (snd (createJob uuid input w)))"
    if a: "attempts_bounded (db w)"
  proof -
    obtain res w1 where u: "createJob uuid input w = (res, w1)"
      by (cases "createJob uuid input w")
    show ?thesis
    proof (cases res)
      case (Inl e)
      with createJob_cases [OF u] a show ?thesis by (auto simp: u)
    next
      case (Inr row)
      with createJob_cases [OF u] obtain
        i: "insert_job uuid (originalFilename_in input) (storedFilename_in input)
              (filePath_in input) (fileSize_in input) (mimeType_in input) (checksum_in input)
              (case priority_in input of None \<Rightarrow> 0 | Some p \<Rightarrow> p) (clock w) (db w) =
            Inr (db w1, row)"
        by auto
      from insert_job_Inr [OF i] insert_job_row [OF i] a show ?thesis
        by (simp add: u attempts_bounded_def)
    qed
  qed
  have four: "attempts_bounded (db (snd (completeJobWithResult uuid jobId r w)))"
    if a: "attempts_bounded (db w)"
  proof -
    obtain res w1 where u: "completeJobWithResult uuid jobId r w = (res, w1)"
      by (cases "completeJobWithResult uuid jobId r w")
    from completeJobWithResult_cases [OF u] a show ?thesis
      by (auto simp: u attempts_bounded_def update_job_def mark_completed_def list_all_iff)
  qed
  have five: "attempts_bounded (db w') \<longleftrightarrow> attempts jb < max_attempts jb"
    if a: "attempts_bounded (db w) \<and> distinct (map id_jobs (jobs (db w))) \<and>
           job_of jobId (db w) = Some jb \<and>
           updateJobStatus jobId PROCESSING msg w = (Inr j', w')"
  proof -
    from a have b: "attempts_bounded (db w)"
      and ds: "distinct (map id_jobs (jobs (db w)))"
      and jb: "job_of jobId (db w) = Some jb"
      and u: "updateJobStatus jobId PROCESSING msg w = (Inr j', w')"
      by simp_all
    from updateJobStatus_cases [OF u]
    have d: "db w' = update_job jobId (set_status PROCESSING msg (clock w)) (db w)"
      by auto
    from job_of_in_jobs [OF jb] have inb: "jb \<in> set (jobs (db w))"
      and idb: "id_jobs jb = jobId"
      by simp_all
    have only: "r = jb" if "r \<in> set (jobs (db w))" and "id_jobs r = jobId" for r
      using job_of_unique [OF ds jb that] .
    have "attempts_bounded (db w') \<longleftrightarrow>
            list_all (\<lambda>j. attempts j \<le> max_attempts j)
              (map (\<lambda>r. if id_jobs r = jobId then set_status PROCESSING msg (clock w) r else r)
                 (jobs (db w)))"
      unfolding d attempts_bounded_def update_job_def by simp
    also have "\<dots> \<longleftrightarrow>
            (\<forall>r\<in>set (jobs (db w)).
               if id_jobs r = jobId
               then attempts (set_status PROCESSING msg (clock w) r)
                    \<le> max_attempts (set_status PROCESSING msg (clock w) r)
               else attempts r \<le> max_attempts r)"
      by (rule list_all_map_if)
    also have "\<dots> \<longleftrightarrow>
            (\<forall>r\<in>set (jobs (db w)).
               if id_jobs r = jobId then attempts r + 1 \<le> max_attempts r
               else attempts r \<le> max_attempts r)"
      by simp
    also have "\<dots> \<longleftrightarrow> attempts jb + 1 \<le> max_attempts jb"
    proof
      assume "\<forall>r\<in>set (jobs (db w)).
               if id_jobs r = jobId then attempts r + 1 \<le> max_attempts r
               else attempts r \<le> max_attempts r"
      with inb idb show "attempts jb + 1 \<le> max_attempts jb" by auto
    next
      assume h: "attempts jb + 1 \<le> max_attempts jb"
      show "\<forall>r\<in>set (jobs (db w)).
               if id_jobs r = jobId then attempts r + 1 \<le> max_attempts r
               else attempts r \<le> max_attempts r"
      proof
        fix r
        assume r: "r \<in> set (jobs (db w))"
        show "if id_jobs r = jobId then attempts r + 1 \<le> max_attempts r
              else attempts r \<le> max_attempts r"
        proof (cases "id_jobs r = jobId")
          case True
          with only [OF r] h show ?thesis by simp
        next
          case False
          with b r show ?thesis by (simp add: attempts_bounded_def list_all_iff)
        qed
      qed
    qed
    finally show ?thesis by auto
  qed
  have six: "\<exists>jn. fst (updateJobStatus jobId PROCESSING msg w) = Inr jn \<and>
            job_of jobId (db (snd (updateJobStatus jobId PROCESSING msg w))) = Some jn \<and>
            attempts jn = attempts jb + 1 \<and> max_attempts jn = max_attempts jb"
    if a: "job_of jobId (db w) = Some jb \<and> attempts jb < 2147483647 \<and> \<not> next_fault w"
  proof -
    from a have jb: "job_of jobId (db w) = Some jb" and nf: "\<not> next_fault w" by simp_all
    from updateJobStatus_no_fault [OF nf jb, of PROCESSING msg]
    have f: "fst (updateJobStatus jobId PROCESSING msg w) =
               Inr (set_status PROCESSING msg (clock w) jb)"
      and d: "db (snd (updateJobStatus jobId PROCESSING msg w)) =
               update_job jobId (set_status PROCESSING msg (clock w)) (db w)"
      by simp_all
    have "job_of jobId (db (snd (updateJobStatus jobId PROCESSING msg w))) =
            Some (set_status PROCESSING msg (clock w) jb)"
      unfolding d using jb by (simp add: job_of_update_job)
    with f show ?thesis by simp
  qed
  from one two three four five six show ?thesis by blast
qed

text \<open>
  The theorem at the job \<^verbatim>\<open>j1\<close> just created, whose id is the only one of the table: a
  pick-up returns, takes the stored attempts from 0 to 1 and keeps the invariant, as
  0 is below 3; a failure keeps the invariant.
\<close>

theorem attempts_change_only_into_processing_witness:
  "(\<exists>j. job_of ''j1'' (db world_j1) = Some j \<and>
        job_of ''j1'' (db (snd (updateJobStatus ''j1'' PROCESSING None world_j1))) =
          Some (projr (fst (updateJobStatus ''j1'' PROCESSING None world_j1))) \<and>
        attempts (projr (fst (updateJobStatus ''j1'' PROCESSING None world_j1))) =
          attempts j + 1 \<and>
        attempts j < 2147483647 \<and>
        (\<exists>jn. fst (updateJobStatus ''j1'' PROCESSING None world_j1) = Inr jn \<and>
              attempts jn = attempts j + 1 \<and> max_attempts jn = max_attempts j)) \<and>
   attempts_bounded (db world_j1) \<and> FAILED \<noteq> PROCESSING \<and>
   attempts_bounded (db (snd (updateJobStatus ''j1'' FAILED (Some ''boom'') world_j1))) \<and>
   distinct (map id_jobs (jobs (db world_j1))) \<and>
   map attempts (jobs (db world_j1)) = [0] \<and> map max_attempts (jobs (db world_j1)) = [3] \<and>
   \<not> next_fault world_j1 \<and>
   attempts_bounded (db (snd (updateJobStatus ''j1'' PROCESSING None world_j1)))"
proof -
  let ?X = "updateJobStatus ''j1'' PROCESSING None world_j1"
  have "\<not> isl (fst ?X)" by code_simp
  then have x: "?X = (Inr (projr (fst ?X)), snd ?X)"
    by (cases ?X) (auto simp: isl_def)
  have b: "attempts_bounded (db world_j1)" by code_simp
  have ds: "distinct (map id_jobs (jobs (db world_j1)))" by code_simp
  have at: "map attempts (jobs (db world_j1)) = [0]" by code_simp
  have mx: "map max_attempts (jobs (db world_j1)) = [3]" by code_simp
  have nf: "\<not> next_fault world_j1" by code_simp
  note inst = attempts_change_only_into_processing
      [of "''j1''" PROCESSING None world_j1 "projr (fst ?X)" "snd ?X"]
  from inst [THEN conjunct1, THEN mp, OF x]
  obtain j where j: "job_of ''j1'' (db world_j1) = Some j"
    and j': "job_of ''j1'' (db (snd ?X)) = Some (projr (fst ?X))"
    and a: "attempts (projr (fst ?X)) = attempts j + 1"
    by auto
  from job_of_in_jobs [OF j] at mx have lt: "attempts j < max_attempts j"
    and sm: "attempts j < 2147483647"
    by (cases "jobs (db world_j1)"; auto)+
  have six: "\<exists>jn. fst ?X = Inr jn \<and> attempts jn = attempts j + 1 \<and>
                 max_attempts jn = max_attempts j"
    using inst [where jb = j, THEN conjunct2, THEN conjunct2, THEN conjunct2, THEN conjunct2,
               THEN conjunct2] j sm nf
    by blast
  have five: "attempts_bounded (db (snd ?X))"
    using inst [where jb = j, THEN conjunct2, THEN conjunct2, THEN conjunct2, THEN conjunct2,
               THEN conjunct1] b ds j x lt
    by blast
  have "attempts_bounded (db world_j1) \<and> FAILED \<noteq> PROCESSING" using b by simp
  then have two:
    "attempts_bounded (db (snd (updateJobStatus ''j1'' FAILED (Some ''boom'') world_j1)))"
    by (rule attempts_change_only_into_processing
      [of "''j1''" FAILED "Some ''boom''" world_j1,
       THEN conjunct2, THEN conjunct1, THEN mp])
  from j j' a sm six have "\<exists>j. job_of ''j1'' (db world_j1) = Some j \<and>
        job_of ''j1'' (db (snd ?X)) = Some (projr (fst ?X)) \<and>
        attempts (projr (fst ?X)) = attempts j + 1 \<and>
        attempts j < 2147483647 \<and>
        (\<exists>jn. fst ?X = Inr jn \<and> attempts jn = attempts j + 1 \<and>
              max_attempts jn = max_attempts j)"
    by blast
  with two b ds at mx nf five show ?thesis by simp
qed

text \<open>
  Claim C1 as stated fails: after four transitions into \<^verbatim>\<open>processing\<close> the job
  created with \<^verbatim>\<open>maxAttempts = 3\<close> has \<^verbatim>\<open>attempts = 4\<close>.
\<close>

theorem attempts_exceed_maxAttempts:
  "map attempts (jobs (db (store_run four_pickups world0))) = [4] \<and>
   map max_attempts (jobs (db (store_run four_pickups world0))) = [3] \<and>
   \<not> attempts_bounded (db (store_run four_pickups world0))"
  by code_simp

subsection \<open>completeJobWithResult is all or nothing\<close>



subsection \<open>Failure of an attempt\<close>

lemma getRetryableJobs_rows:
  assumes "fst (getRetryableJobs limit w) = Inr rows" and "length (jobs (db w)) \<le> limit"
  shows "set rows = {r \<in> set (jobs (db w)). status r = FAILED \<and> attempts r < max_attempts r}"
proof -
  obtain res w' where q: "getRetryableJobs limit w = (res, w')"
    by (cases "getRetryableJobs limit w")
  with assms have r: "res = Inr rows" by simp
  from query_cases [OF q [unfolded getRetryableJobs_def]] r
  have "rows = take limit (sort_key updated_at
          (filter (\<lambda>r. status r = FAILED \<and> attempts r < max_attempts r) (jobs (db w))))"
    by (auto simp: select_retryable_def)
  moreover have "length (sort_key updated_at
          (filter (\<lambda>r. status r = FAILED \<and> attempts r < max_attempts r) (jobs (db w)))) \<le> limit"
    using assms(2) le_trans [OF length_filter_le] by simp
  ultimately show ?thesis by auto
qed

text \<open>
  Claim C6, as the code has it. A transition to \<^verbatim>\<open>failed\<close> sets \<^verbatim>\<open>completed_at\<close>
  always, whether or not the attempts are exhausted, sets \<^verbatim>\<open>error_message\<close> to the
  message given and leaves \<^verbatim>\<open>attempts\<close> as it was; the failed job is listed by
  \<^verbatim>\<open>getRetryableJobs\<close> (with a limit that does not cut the list) exactly when it has
  attempts left.
\<close>

theorem failed_sets_completedAt_always:
  assumes "updateJobStatus jobId FAILED (Some m) w = (Inr j', w')"
  shows "status j' = FAILED \<and> error_message j' = Some m \<and>
         completed_at j' = Some (clock w) \<and> job_of jobId (db w') = Some j' \<and>
         (\<exists>j. job_of jobId (db w) = Some j \<and> attempts j' = attempts j \<and>
              max_attempts j' = max_attempts j) \<and>
         (\<forall>limit rows. length (jobs (db w')) \<le> limit \<and>
              fst (getRetryableJobs limit w') = Inr rows \<longrightarrow>
              (j' \<in> set rows \<longleftrightarrow> attempts j' < max_attempts j'))"
proof -
  from updateJobStatus_cases [OF assms]
  obtain j where j: "job_of jobId (db w) = Some j"
    and j': "j' = set_status FAILED (Some m) (clock w) j"
    and d: "db w' = update_job jobId (set_status FAILED (Some m) (clock w)) (db w)"
    by (auto split: option.splits)
  have new: "job_of jobId (db w') = Some j'"
    unfolding d j' using j by (simp add: job_of_update_job)
  have "\<forall>limit rows. length (jobs (db w')) \<le> limit \<and>
              fst (getRetryableJobs limit w') = Inr rows \<longrightarrow>
              (j' \<in> set rows \<longleftrightarrow> attempts j' < max_attempts j')"
  proof (intro allI impI)
    fix limit rows
    assume "length (jobs (db w')) \<le> limit \<and> fst (getRetryableJobs limit w') = Inr rows"
    then have "set rows =
        {r \<in> set (jobs (db w')). status r = FAILED \<and> attempts r < max_attempts r}"
      using getRetryableJobs_rows by blast
    with job_of_in_jobs [OF new] show "j' \<in> set rows \<longleftrightarrow> attempts j' < max_attempts j'"
      by (simp add: j')
  qed
  with j j' new show ?thesis by simp
qed

text \<open>The theorem at the first failure of job \<^verbatim>\<open>j1\<close>: one attempt of three used.\<close>

theorem failed_sets_completedAt_always_witness:
  "status (projr (fst (updateJobStatus ''j1'' FAILED (Some ''boom'') world_processing))) = FAILED \<and>
   completed_at (projr (fst (updateJobStatus ''j1'' FAILED (Some ''boom'') world_processing))) =
     Some (clock world_processing) \<and>
   attempts (projr (fst (updateJobStatus ''j1'' FAILED (Some ''boom'') world_processing))) = 1 \<and>
   max_attempts (projr (fst (updateJobStatus ''j1'' FAILED (Some ''boom'') world_processing))) = 3"
proof -
  let ?X = "updateJobStatus ''j1'' FAILED (Some ''boom'') world_processing"
  have "\<not> isl (fst ?X)" by code_simp
  then have x: "?X = (Inr (projr (fst ?X)), snd ?X)"
    by (cases ?X) (auto simp: isl_def)
  have a: "attempts (projr (fst ?X)) = 1" by code_simp
  have b: "max_attempts (projr (fst ?X)) = 3" by code_simp
  from failed_sets_completedAt_always [OF x] a b show ?thesis by simp
qed

text \<open>
  Claim C6 as stated fails: the job that failed on its first attempt of three has
  \<^verbatim>\<open>completed_at\<close> set.
\<close>

theorem failed_with_attempts_left_has_completedAt:
  "map status (jobs (db (store_run failed_once world0))) = [FAILED] \<and>
   map attempts (jobs (db (store_run failed_once world0))) = [1] \<and>
   map max_attempts (jobs (db (store_run failed_once world0))) = [3] \<and>
   map error_message (jobs (db (store_run failed_once world0))) = [Some ''boom''] \<and>
   map completed_at (jobs (db (store_run failed_once world0))) = [Some 100]"
  by code_simp

subsection \<open>Creating a job\<close>

text \<open>
  Claim C7, as the code has it. \<^verbatim>\<open>createJob\<close> checks nothing itself. When a required
  field is missing, the \<^verbatim>\<open>NOT NULL\<close> constraint rejects the row and \<^verbatim>\<open>createJob\<close> fails
  with \<^verbatim>\<open>DatabaseError\<close>, the table unchanged; so it does when a value is one its
  column does not take (a text too long for its \<^verbatim>\<open>VARCHAR\<close>, a number out of range).
  When it returns a job, the job is the row appended to the table: it has the
  generated id, which no earlier row has, status \<^verbatim>\<open>pending\<close>, no attempts, and the
  required fields of the input as their columns store them. It does return a job when
  the required fields are present, every column takes its value, the id is new and
  the statement is not lost.
\<close>

theorem createJob_constraints:
  "((originalFilename_in input = None \<or> storedFilename_in input = None \<or>
     filePath_in input = None \<or> fileSize_in input = None) \<longrightarrow>
      fst (createJob uuid input w) = Inl (DatabaseError ''Database query failed'') \<and>
      db (snd (createJob uuid input w)) = db w) \<and>
   ((\<not> fits 255 (originalFilename_in input) \<or> \<not> fits 255 (storedFilename_in input) \<or>
     \<not> fits 500 (filePath_in input) \<or> \<not> fits 100 (mimeType_in input) \<or>
     \<not> fits 64 (checksum_in input) \<or>
     (\<exists>n. fileSize_in input = Some n \<and> \<not> bigint_range n) \<or>
     \<not> integer_range (case priority_in input of None \<Rightarrow> 0 | Some p \<Rightarrow> p)) \<longrightarrow>
      fst (createJob uuid input w) = Inl (DatabaseError ''Database query failed'') \<and>
      db (snd (createJob uuid input w)) = db w) \<and>
   (createJob uuid input w = (Inr job, w') \<longrightarrow>
      id_jobs job = uuid \<and> uuid \<notin> set (map id_jobs (jobs (db w))) \<and>
      status job = PENDING \<and> attempts job = 0 \<and> max_attempts job = 3 \<and>
      jobs (db w') = jobs (db w) @ [job] \<and>
      (\<exists>a. originalFilename_in input = Some a \<and>
           varchar 255 a = Some (original_filename job)) \<and>
      (\<exists>b. storedFilename_in input = Some b \<and>
           varchar 255 b = Some (stored_filename job)) \<and>
      (\<exists>c. filePath_in input = Some c \<and> varchar 500 c = Some (file_path job)) \<and>
      fileSize_in input = Some (file_size job)) \<and>
   (originalFilename_in input \<noteq> None \<and> storedFilename_in input \<noteq> None \<and>
    filePath_in input \<noteq> None \<and> fileSize_in input \<noteq> None \<and>
    fits 255 (originalFilename_in input) \<and> fits 255 (storedFilename_in input) \<and>
    fits 500 (filePath_in input) \<and> fits 100 (mimeType_in input) \<and>
    fits 64 (checksum_in input) \<and>
    (\<forall>n. fileSize_in input = Some n \<longrightarrow> bigint_range n) \<and>
    integer_range (case priority_in input of None \<Rightarrow> 0 | Some p \<Rightarrow> p) \<and>
    uuid \<notin> set (map id_jobs (jobs (db w))) \<and> \<not> next_fault w \<longrightarrow>
      (\<exists>job. fst (createJob uuid input w) = Inr job))"
proof -
  let ?pr = "case priority_in input of None \<Rightarrow> 0 | Some p \<Rightarrow> p"
  let ?row = "job_row uuid (originalFilename_in input) (storedFilename_in input)
                (filePath_in input) (fileSize_in input) (mimeType_in input)
                (checksum_in input) ?pr (clock w)"
  obtain res w1 where u: "createJob uuid input w = (res, w1)"
    by (cases "createJob uuid input w")
  have fail: "fst (createJob uuid input w) = Inl (DatabaseError ''Database query failed'') \<and>
      db (snd (createJob uuid input w)) = db w"
    if n: "?row = None"
    using createJob_cases [OF u] n by (auto simp: u dest!: insert_job_Inr)
  have one: "fst (createJob uuid input w) = Inl (DatabaseError ''Database query failed'') \<and>
      db (snd (createJob uuid input w)) = db w"
    if "originalFilename_in input = None \<or> storedFilename_in input = None \<or>
        filePath_in input = None \<or> fileSize_in input = None"
    by (rule fail) (use that job_row_None_iff in blast)
  have oneb: "fst (createJob uuid input w) = Inl (DatabaseError ''Database query failed'') \<and>
      db (snd (createJob uuid input w)) = db w"
    if "\<not> fits 255 (originalFilename_in input) \<or> \<not> fits 255 (storedFilename_in input) \<or>
        \<not> fits 500 (filePath_in input) \<or> \<not> fits 100 (mimeType_in input) \<or>
        \<not> fits 64 (checksum_in input) \<or>
        (\<exists>n. fileSize_in input = Some n \<and> \<not> bigint_range n) \<or> \<not> integer_range ?pr"
    by (rule fail) (use that job_row_None_iff in blast)
  have two: "id_jobs job = uuid \<and> uuid \<notin> set (map id_jobs (jobs (db w))) \<and>
      status job = PENDING \<and> attempts job = 0 \<and> max_attempts job = 3 \<and>
      jobs (db w') = jobs (db w) @ [job] \<and>
      (\<exists>a. originalFilename_in input = Some a \<and>
           varchar 255 a = Some (original_filename job)) \<and>
      (\<exists>b. storedFilename_in input = Some b \<and>
           varchar 255 b = Some (stored_filename job)) \<and>
      (\<exists>c. filePath_in input = Some c \<and> varchar 500 c = Some (file_path job)) \<and>
      fileSize_in input = Some (file_size job)"
    if r: "createJob uuid input w = (Inr job, w')"
  proof -
    from createJob_cases [OF r] have
      i: "insert_job uuid (originalFilename_in input) (storedFilename_in input)
              (filePath_in input) (fileSize_in input) (mimeType_in input) (checksum_in input)
              ?pr (clock w) (db w) = Inr (db w', job)"
      by auto
    from insert_job_Inr [OF i] have "?row = Some job"
      and "uuid \<notin> set (map id_jobs (jobs (db w)))"
      and "jobs (db w') = jobs (db w) @ [job]"
      by simp_all
    with job_row_Some [of uuid "originalFilename_in input" "storedFilename_in input"
        "filePath_in input" "fileSize_in input" "mimeType_in input" "checksum_in input"
        ?pr "clock w" job]
    show ?thesis by simp
  qed
  have three: "\<exists>job. fst (createJob uuid input w) = Inr job"
    if h: "originalFilename_in input \<noteq> None \<and> storedFilename_in input \<noteq> None \<and>
        filePath_in input \<noteq> None \<and> fileSize_in input \<noteq> None \<and>
        fits 255 (originalFilename_in input) \<and> fits 255 (storedFilename_in input) \<and>
        fits 500 (filePath_in input) \<and> fits 100 (mimeType_in input) \<and>
        fits 64 (checksum_in input) \<and>
        (\<forall>n. fileSize_in input = Some n \<longrightarrow> bigint_range n) \<and> integer_range ?pr \<and>
        uuid \<notin> set (map id_jobs (jobs (db w))) \<and> \<not> next_fault w"
  proof -
    from h have "?row \<noteq> None" unfolding job_row_None_iff by blast
    then obtain row where row: "?row = Some row" by blast
    from h have nf: "\<not> next_fault w" and fr: "uuid \<notin> set (map id_jobs (jobs (db w)))"
      by simp_all
    have "insert_job uuid (originalFilename_in input) (storedFilename_in input)
              (filePath_in input) (fileSize_in input) (mimeType_in input) (checksum_in input)
              ?pr (clock w) (db w) = Inr ((db w)\<lparr>jobs := jobs (db w) @ [row]\<rparr>, row)"
      using row fr by (simp add: insert_job_def)
    then have "query (insert_job uuid (originalFilename_in input) (storedFilename_in input)
              (filePath_in input) (fileSize_in input) (mimeType_in input) (checksum_in input)
              ?pr) w = (Inr row, (consume_fault w)\<lparr>db := (db w)\<lparr>jobs := jobs (db w) @ [row]\<rparr>\<rparr>)"
      by (rule query_no_fault [OF nf])
    then show ?thesis by (simp add: createJob_def)
  qed
  from one oneb two three show ?thesis by blast
qed

text \<open>
  The theorem at an input without a file name, at an input whose file name has 256
  characters, and at a complete input that every column takes.
\<close>

theorem createJob_constraints_witness:
  "originalFilename_in input_no_name = None \<and>
   fst (createJob ''j1'' input_no_name world0) = Inl (DatabaseError ''Database query failed'') \<and>
   db (snd (createJob ''j1'' input_no_name world0)) = db world0 \<and>
   \<not> fits 255 (originalFilename_in input_long_name) \<and>
   fst (createJob ''j1'' input_long_name world0) =
     Inl (DatabaseError ''Database query failed'') \<and>
   id_jobs (projr (fst (createJob ''j1'' input_a world0))) = ''j1'' \<and>
   status (projr (fst (createJob ''j1'' input_a world0))) = PENDING \<and>
   fits 255 (originalFilename_in input_a) \<and> fits 255 (storedFilename_in input_a) \<and>
   fits 500 (filePath_in input_a) \<and> fits 100 (mimeType_in input_a) \<and>
   fits 64 (checksum_in input_a) \<and> ''j1'' \<notin> set (map id_jobs (jobs (db world0))) \<and>
   \<not> next_fault world0 \<and> \<not> isl (fst (createJob ''j1'' input_a world0))"
proof -
  note inst = createJob_constraints
  have n: "originalFilename_in input_no_name = None" by code_simp
  have l: "\<not> fits 255 (originalFilename_in input_long_name)" by code_simp
  have f: "fits 255 (originalFilename_in input_a) \<and> fits 255 (storedFilename_in input_a) \<and>
           fits 500 (filePath_in input_a) \<and> fits 100 (mimeType_in input_a) \<and>
           fits 64 (checksum_in input_a)"
    by code_simp
  have p: "originalFilename_in input_a \<noteq> None \<and> storedFilename_in input_a \<noteq> None \<and>
           filePath_in input_a \<noteq> None \<and> fileSize_in input_a \<noteq> None \<and>
           (\<forall>n. fileSize_in input_a = Some n \<longrightarrow> bigint_range n) \<and>
           integer_range (case priority_in input_a of None \<Rightarrow> 0 | Some p \<Rightarrow> p)"
    by (simp add: input_a_def bigint_range_def integer_range_def)
  have fr: "''j1'' \<notin> set (map id_jobs (jobs (db world0)))" by code_simp
  have nf: "\<not> next_fault world0" by code_simp
  let ?X = "createJob ''j1'' input_a world0"
  from inst [of input_a "''j1''" world0, THEN conjunct2, THEN conjunct2, THEN conjunct2]
    f p fr nf
  obtain job where j: "fst ?X = Inr job" by blast
  then have x: "?X = (Inr (projr (fst ?X)), snd ?X)"
    by (cases ?X) auto
  from inst [of input_no_name "''j1''" world0, THEN conjunct1] n
  have one: "fst (createJob ''j1'' input_no_name world0) =
      Inl (DatabaseError ''Database query failed'') \<and>
      db (snd (createJob ''j1'' input_no_name world0)) = db world0"
    by blast
  from inst [of input_long_name "''j1''" world0, THEN conjunct2, THEN conjunct1] l
  have oneb: "fst (createJob ''j1'' input_long_name world0) =
      Inl (DatabaseError ''Database query failed'')"
    by blast
  from inst
    [of input_a "''j1''" world0 "projr (fst ?X)" "snd ?X", THEN conjunct2, THEN conjunct2,
     THEN conjunct1, THEN mp, OF x]
  have two: "id_jobs (projr (fst ?X)) = ''j1'' \<and> status (projr (fst ?X)) = PENDING"
    by blast
  from n one l oneb two f fr nf j show ?thesis by simp
qed

text \<open>
  Claim C7 as stated fails: with the file name missing the error is a
  \<^verbatim>\<open>DatabaseError\<close>, not a \<^verbatim>\<open>ValidationError\<close>.
\<close>

theorem createJob_missing_field_is_DatabaseError:
  "originalFilename_in input_no_name = None \<and>
   fst (createJob ''j1'' input_no_name world0) = Inl (DatabaseError ''Database query failed'')"
  by code_simp

subsection \<open>Completed jobs and their results\<close>

lemma store_inv_insert_job:
  assumes "store_inv d" and "insert_job i ofn sfn fp sz mt cs pr now d = Inr (d', row)"
  shows "store_inv d'"
proof -
  from insert_job_Inr [OF assms(2)] insert_job_row [OF assms(2)]
  have j: "jobs d' = jobs d @ [row]" and s: "scan_results d' = scan_results d"
    and p: "status row = PENDING"
    by auto
  from assms(1) show ?thesis
    by (auto simp: store_inv_def results_of_def list_all_iff j s p)
qed

lemma id_jobs_mark_completed [simp]: "id_jobs (mark_completed now r) = id_jobs r"
  by (simp add: mark_completed_def)

lemma store_inv_set_status:
  assumes "store_inv d" and "st \<noteq> COMPLETED"
  shows "store_inv (update_job jobId (set_status st m now) d)"
proof -
  let ?d' = "update_job jobId (set_status st m now) d"
  have ids: "map id_jobs (jobs ?d') = map id_jobs (jobs d)"
    by (rule ids_update_job) simp
  have "list_all (\<lambda>r. job_id r \<in> set (map id_jobs (jobs ?d'))) (scan_results ?d')"
    using assms(1) unfolding ids by (simp add: store_inv_def)
  moreover have "list_all (\<lambda>j. status j = COMPLETED \<longrightarrow> results_of (id_jobs j) ?d' \<noteq> [])
                   (jobs ?d')"
    using assms by (auto simp: store_inv_def results_of_def list_all_iff update_job_def)
  ultimately show ?thesis by (simp add: store_inv_def)
qed

lemma store_inv_complete:
  assumes "store_inv d" and "jobId \<in> set (map id_jobs (jobs d))"
  shows "store_inv (update_job jobId (mark_completed now)
           (d\<lparr>scan_results := scan_results d @ [new_scan_result u jobId r now]\<rparr>))"
proof -
  let ?d1 = "d\<lparr>scan_results := scan_results d @ [new_scan_result u jobId r now]\<rparr>"
  let ?d' = "update_job jobId (mark_completed now) ?d1"
  have ids: "map id_jobs (jobs ?d') = map id_jobs (jobs d)"
    using ids_update_job [of "mark_completed now" jobId ?d1] by simp
  have "list_all (\<lambda>r. job_id r \<in> set (map id_jobs (jobs ?d'))) (scan_results ?d')"
    using assms unfolding ids
    by (auto simp: store_inv_def list_all_iff new_scan_result_def)
  moreover have "list_all (\<lambda>j. status j = COMPLETED \<longrightarrow> results_of (id_jobs j) ?d' \<noteq> [])
                   (jobs ?d')"
    using assms(1)
    by (auto simp: store_inv_def results_of_def list_all_iff update_job_def
        new_scan_result_def filter_empty_conv)
  ultimately show ?thesis by (simp add: store_inv_def)
qed

lemma store_inv_step: "store_inv (db w) \<Longrightarrow> store_inv (db (store_step c w))"
proof (cases c)
  case (CreateJob uuid input)
  assume inv: "store_inv (db w)"
  obtain res w' where u: "createJob uuid input w = (res, w')"
    by (cases "createJob uuid input w")
  from createJob_cases [OF u] inv show ?thesis
    by (auto simp: CreateJob u intro: store_inv_insert_job)
next
  case (ToProcessing jobId)
  assume inv: "store_inv (db w)"
  obtain res w' where u: "updateJobStatus jobId PROCESSING None w = (res, w')"
    by (cases "updateJobStatus jobId PROCESSING None w")
  from updateJobStatus_cases [OF u] inv show ?thesis
    by (auto simp: ToProcessing u intro: store_inv_set_status)
next
  case (ToFailed jobId m)
  assume inv: "store_inv (db w)"
  obtain res w' where u: "updateJobStatus jobId FAILED (Some m) w = (res, w')"
    by (cases "updateJobStatus jobId FAILED (Some m) w")
  from updateJobStatus_cases [OF u] inv show ?thesis
    by (auto simp: ToFailed u intro: store_inv_set_status)
next
  case (Complete uuid jobId r)
  assume inv: "store_inv (db w)"
  obtain res w' where u: "completeJobWithResult uuid jobId r w = (res, w')"
    by (cases "completeJobWithResult uuid jobId r w")
  from completeJobWithResult_cases [OF u] inv show ?thesis
    by (auto simp: Complete u intro!: store_inv_complete)
qed

lemma store_inv_run: "store_inv (db w) \<Longrightarrow> store_inv (db (store_run cs w))"
  unfolding store_run_def
  by (induction cs arbitrary: w) (auto intro: store_inv_step)

text \<open>
  Claim C2, as the code has it. In every state that the calls of the service lead to
  from empty tables, a job that is \<^verbatim>\<open>completed\<close> has at least one row in
  \<^verbatim>\<open>scan_results\<close>, and every row of \<^verbatim>\<open>scan_results\<close> belongs to a job of the table.
  The number of rows of one job is not bounded, and a job that has rows need not be
  \<^verbatim>\<open>completed\<close>.
\<close>

theorem completed_jobs_have_results:
  "store_inv empty_db \<and> (store_inv (db w) \<longrightarrow> store_inv (db (store_run cs w)))"
  by (simp add: store_inv_run) (simp add: store_inv_def empty_db_def)

text \<open>The theorem at the run that completes job \<^verbatim>\<open>j1\<close> twice.\<close>

theorem completed_jobs_have_results_witness:
  "store_inv (db world0) \<and> store_inv (db (store_run completed_twice world0)) \<and>
   map status (jobs (db (store_run completed_twice world0))) = [COMPLETED] \<and>
   results_of ''j1'' (db (store_run completed_twice world0)) \<noteq> []"
proof -
  have e: "db world0 = empty_db" by (simp add: world0_def)
  have a: "map status (jobs (db (store_run completed_twice world0))) = [COMPLETED]"
    by code_simp
  have b: "results_of ''j1'' (db (store_run completed_twice world0)) \<noteq> []"
    by code_simp
  from completed_jobs_have_results [of world0 completed_twice] e a b
  show ?thesis by simp
qed

text \<open>
  Claim C2 as stated fails twice: the job completed a second time is \<^verbatim>\<open>completed\<close>
  with two rows, and the job picked up again after its completion has a row while
  it is \<^verbatim>\<open>processing\<close>.
\<close>

theorem completed_job_with_two_results:
  "map status (jobs (db (store_run completed_twice world0))) = [COMPLETED] \<and>
   map job_id (scan_results (db (store_run completed_twice world0))) = [''j1'', ''j1''] \<and>
   map status (jobs (db (store_run picked_up_again world0))) = [PROCESSING] \<and>
   map job_id (scan_results (db (store_run picked_up_again world0))) = [''j1'']"
  by code_simp

subsection \<open>The worker\<close>

lemma consume_fault_fields [simp]:
  "db (consume_fault w) = db w" "cwd (consume_fault w) = cwd w"
  "config_uploadDir (consume_fault w) = config_uploadDir w" "disk (consume_fault w) = disk w"
  "queue (consume_fault w) = queue w" "redis_faults (consume_fault w) = redis_faults w"
  "scanner_calls (consume_fault w) = scanner_calls w"
  by (simp_all add: consume_fault_def)

lemma updateJobStatus_frame:
  assumes "updateJobStatus jobId st msg w = (res, w')"
  shows "w' = (consume_fault w)\<lparr>db := db w'\<rparr>"
proof -
  obtain a wa where q: "query (update_status jobId st msg) w = (a, wa)"
    by (cases "query (update_status jobId st msg) w")
  with assms have "w' = wa"
    by (auto simp: updateJobStatus_def split: sum.splits list.splits)
  with query_frame [OF q] show ?thesis by simp
qed

lemma updateJobStatus_env:
  assumes "updateJobStatus jobId st msg w = (res, w')"
  shows "clock w' = clock w \<and> cwd w' = cwd w \<and> config_uploadDir w' = config_uploadDir w \<and>
         disk w' = disk w \<and> scanner_calls w' = scanner_calls w \<and> queue w' = queue w \<and>
         pg_faults w' = tl (pg_faults w)"
proof -
  from updateJobStatus_frame [OF assms]
  have "w' = (consume_fault w)\<lparr>db := db w'\<rparr>" .
  then have "clock w' = clock ((consume_fault w)\<lparr>db := db w'\<rparr>)"
    "cwd w' = cwd ((consume_fault w)\<lparr>db := db w'\<rparr>)"
    "config_uploadDir w' = config_uploadDir ((consume_fault w)\<lparr>db := db w'\<rparr>)"
    "disk w' = disk ((consume_fault w)\<lparr>db := db w'\<rparr>)"
    "scanner_calls w' = scanner_calls ((consume_fault w)\<lparr>db := db w'\<rparr>)"
    "queue w' = queue ((consume_fault w)\<lparr>db := db w'\<rparr>)"
    "pg_faults w' = pg_faults ((consume_fault w)\<lparr>db := db w'\<rparr>)"
    by simp_all
  then show ?thesis by (simp add: consume_fault_def)
qed

lemma fileExists_env:
  "cwd w' = cwd w \<Longrightarrow> config_uploadDir w' = config_uploadDir w \<Longrightarrow> disk w' = disk w \<Longrightarrow>
   fileExists n w' = fileExists n w"
  by (simp add: fileExists_def UPLOAD_DIR_def split: sum.splits)


text \<open>What a normal return of the worker means for the tables.\<close>

lemma processScanJob_try_ok:
  assumes "processScanJob_try p u i out w = (Inr x, w')"
  shows "\<exists>j rd. job_of (jobId_payload p) (db w) = Some j \<and>
           db w' = update_job (jobId_payload p) (mark_completed (clock w))
                     ((update_job (jobId_payload p) (set_status PROCESSING None (clock w)) (db w))
                        \<lparr>scan_results := scan_results (db w) @
                           [new_scan_result u (jobId_payload p) rd (clock w)]\<rparr>)"
proof -
  obtain r1 w1 where u1: "updateJobStatus (jobId_payload p) PROCESSING None w = (r1, w1)"
    by (cases "updateJobStatus (jobId_payload p) PROCESSING None w")
  from assms u1 obtain j1 where r1: "r1 = Inr j1"
    by (cases r1) (auto simp: processScanJob_try_def)
  from updateJobStatus_cases [OF u1] r1
  obtain j where j: "job_of (jobId_payload p) (db w) = Some j"
    and d1: "db w1 = update_job (jobId_payload p) (set_status PROCESSING None (clock w)) (db w)"
    by (auto split: option.splits)
  from updateJobStatus_env [OF u1] have c1: "clock w1 = clock w" by simp
  let ?w3 = "w1\<lparr>scanner_calls := scanner_calls w1 @
                  [InitScanner, ScanFile (filePath_payload p)]\<rparr>"
  from assms u1 r1 have "\<exists>sr. completeJobWithResult u (jobId_payload p)
              \<lparr>result_in = resultType sr, isInfected = isInfected_clam sr,
               threatName = (case viruses sr of [] \<Rightarrow> None | v # vs \<Rightarrow> Some v),
               scanDurationMs = scanDurationMs_clam sr\<rparr> ?w3 = (Inr x, w')"
    by (simp add: processScanJob_try_def initScanner_def scanFile_def Let_def
        split: if_splits sum.splits) blast
  then obtain sr where
    c: "completeJobWithResult u (jobId_payload p)
              \<lparr>result_in = resultType sr, isInfected = isInfected_clam sr,
               threatName = (case viruses sr of [] \<Rightarrow> None | v # vs \<Rightarrow> Some v),
               scanDurationMs = scanDurationMs_clam sr\<rparr> ?w3 = (Inr x, w')"
    by blast
  from completeJobWithResult_cases [OF c] c1 d1 j show ?thesis
    by auto
qed

lemma processScanJob_ok:
  assumes "processScanJob p u i out w = (Inr x, w')"
  shows "\<exists>j rd. job_of (jobId_payload p) (db w) = Some j \<and>
           db w' = update_job (jobId_payload p) (mark_completed (clock w))
                     ((update_job (jobId_payload p) (set_status PROCESSING None (clock w)) (db w))
                        \<lparr>scan_results := scan_results (db w) @
                           [new_scan_result u (jobId_payload p) rd (clock w)]\<rparr>)"
proof -
  obtain r w1 where t: "processScanJob_try p u i out w = (r, w1)"
    by (cases "processScanJob_try p u i out w")
  with assms obtain y where "r = Inr y" and "w1 = w'"
    by (cases r) (auto simp: processScanJob_def split: prod.splits sum.splits)
  with t processScanJob_try_ok show ?thesis by blast
qed

lemma processScanJob_once:
  assumes "processScanJob p u i out w = (Inr x, w')"
  shows "\<exists>j j'. job_of (jobId_payload p) (db w) = Some j \<and>
           job_of (jobId_payload p) (db w') = Some j' \<and>
           attempts j' = attempts j + 1 \<and> status j' = COMPLETED \<and>
           length (results_of (jobId_payload p) (db w')) =
             length (results_of (jobId_payload p) (db w)) + 1"
proof -
  from processScanJob_ok [OF assms] obtain j rd where
    j: "job_of (jobId_payload p) (db w) = Some j"
    and d: "db w' = update_job (jobId_payload p) (mark_completed (clock w))
                     ((update_job (jobId_payload p) (set_status PROCESSING None (clock w)) (db w))
                        \<lparr>scan_results := scan_results (db w) @
                           [new_scan_result u (jobId_payload p) rd (clock w)]\<rparr>)"
    by blast
  let ?d1 = "update_job (jobId_payload p) (set_status PROCESSING None (clock w)) (db w)"
  have "job_of (jobId_payload p) ?d1 = Some (set_status PROCESSING None (clock w) j)"
    using j by (simp add: job_of_update_job)
  then have "job_of (jobId_payload p)
               (?d1\<lparr>scan_results := scan_results (db w) @
                           [new_scan_result u (jobId_payload p) rd (clock w)]\<rparr>) =
             Some (set_status PROCESSING None (clock w) j)"
    by (simp add: job_of_def)
  then have "job_of (jobId_payload p) (db w') =
             Some (mark_completed (clock w) (set_status PROCESSING None (clock w) j))"
    unfolding d by (subst job_of_update_job) simp_all
  moreover have "results_of (jobId_payload p) (db w') =
      results_of (jobId_payload p) (db w) @ [new_scan_result u (jobId_payload p) rd (clock w)]"
    unfolding d by (simp add: results_of_def new_scan_result_def)
  ultimately show ?thesis using j by (simp add: mark_completed_def)
qed

text \<open>
  Claim C3, as the code has it. \<^verbatim>\<open>processScanJob\<close> is not idempotent: when two
  executions for the same queue entry both return normally, the job is \<^verbatim>\<open>completed\<close>
  with \<^verbatim>\<open>attempts\<close> raised by two, and it has two more rows in \<^verbatim>\<open>scan_results\<close>.
\<close>

theorem processScanJob_twice_counts_twice:
  assumes "processScanJob p u1 i1 out1 w = (Inr x1, w1)"
    and "processScanJob p u2 i2 out2 w1 = (Inr x2, w2)"
  shows "\<exists>j j2. job_of (jobId_payload p) (db w) = Some j \<and>
           job_of (jobId_payload p) (db w2) = Some j2 \<and>
           attempts j2 = attempts j + 2 \<and> status j2 = COMPLETED \<and>
           length (results_of (jobId_payload p) (db w2)) =
             length (results_of (jobId_payload p) (db w)) + 2"
  using processScanJob_once [OF assms(1)] processScanJob_once [OF assms(2)]
  by auto

text \<open>The theorem at two deliveries of job \<^verbatim>\<open>j1\<close>, its file on disk and clean.\<close>

theorem processScanJob_twice_counts_twice_witness:
  "fst (processScanJob payload_a ''r1'' True clean_scan world_file) = Inr () \<and>
   fst (processScanJob payload_a ''r2'' True clean_scan delivered_once) = Inr () \<and>
   (\<exists>j j2. job_of ''j1'' (db world_file) = Some j \<and>
           job_of ''j1'' (db delivered_twice) = Some j2 \<and>
           attempts j2 = attempts j + 2 \<and> status j2 = COMPLETED \<and>
           length (results_of ''j1'' (db delivered_twice)) =
             length (results_of ''j1'' (db world_file)) + 2)"
proof -
  have a: "fst (processScanJob payload_a ''r1'' True clean_scan world_file) = Inr ()"
    by code_simp
  have b: "fst (processScanJob payload_a ''r2'' True clean_scan delivered_once) = Inr ()"
    by code_simp
  have a': "processScanJob payload_a ''r1'' True clean_scan world_file = (Inr (), delivered_once)"
    using a by (cases "processScanJob payload_a ''r1'' True clean_scan world_file")
      (simp add: delivered_once_def)
  have b': "processScanJob payload_a ''r2'' True clean_scan delivered_once =
      (Inr (), delivered_twice)"
    using b by (cases "processScanJob payload_a ''r2'' True clean_scan delivered_once")
      (simp add: delivered_twice_def)
  have p: "jobId_payload payload_a = ''j1''" by (simp add: payload_a_def)
  from processScanJob_twice_counts_twice [OF a' b'] a b show ?thesis
    by (simp add: p)
qed

text \<open>
  Claim C3 as stated fails: the second execution leaves another row and another
  attempt, so two executions do not have the effect of one.
\<close>

theorem second_delivery_adds_result_and_attempt:
  "map attempts (jobs (db delivered_once)) = [1] \<and>
   map job_id (scan_results (db delivered_once)) = [''j1''] \<and>
   map attempts (jobs (db delivered_twice)) = [2] \<and>
   map job_id (scan_results (db delivered_twice)) = [''j1'', ''j1''] \<and>
   db delivered_twice \<noteq> db delivered_once"
  by code_simp


text \<open>
  Claim C9. When the file of the payload is not in the upload directory,
  \<^verbatim>\<open>processScanJob\<close> throws, adds no row to \<^verbatim>\<open>scan_results\<close> and calls the scanner
  service not at all; when the job exists and no statement is lost, the error is
  \<^verbatim>\<open>File not found: <path>\<close>, and the job is \<^verbatim>\<open>failed\<close> with that message, the attempt
  counted.
\<close>

theorem missing_file_fails_before_scan:
  assumes "\<not> fileExists (path_basename (filePath_payload p)) w"
    and "processScanJob p u i out w = (res, w')"
  shows "(\<exists>e. res = Inl e) \<and> scan_results (db w') = scan_results (db w) \<and>
         scanner_calls w' = scanner_calls w \<and>
         (\<forall>j. job_of (jobId_payload p) (db w) = Some j \<and> pg_faults w = [] \<longrightarrow>
            res = Inl (JsError (''File not found: '' @ filePath_payload p)) \<and>
            (\<exists>j'. job_of (jobId_payload p) (db w') = Some j' \<and> status j' = FAILED \<and>
               error_message j' = Some (''File not found: '' @ filePath_payload p) \<and>
               attempts j' = attempts j + 1))"
proof -
  let ?jid = "jobId_payload p"
  let ?m = "''File not found: '' @ filePath_payload p"
  obtain r1 w1 where u1: "updateJobStatus ?jid PROCESSING None w = (r1, w1)"
    by (cases "updateJobStatus ?jid PROCESSING None w")
  note e1 = updateJobStatus_env [OF u1]
  have nofile: "\<not> fileExists (path_basename (filePath_payload p)) w1"
    using assms(1) fileExists_env [of w1 w] e1 by simp
  have t: "processScanJob_try p u i out w =
             (case r1 of Inl e \<Rightarrow> Inl e | Inr j \<Rightarrow> Inl (JsError ?m), w1)"
    using u1 nofile by (simp add: processScanJob_try_def split: sum.splits)
  then obtain e where te: "processScanJob_try p u i out w = (Inl e, w1)"
    and e: "e = (case r1 of Inl e \<Rightarrow> e | Inr j \<Rightarrow> JsError ?m)"
    by (cases r1) auto
  obtain r2 w2 where u2: "updateJobStatus ?jid FAILED (Some (message e)) w1 = (r2, w2)"
    by (cases "updateJobStatus ?jid FAILED (Some (message e)) w1")
  note e2 = updateJobStatus_env [OF u2]
  have res: "res = (case r2 of Inl e2 \<Rightarrow> Inl e2 | Inr j \<Rightarrow> Inl e)" and w': "w' = w2"
    using assms(2) te u2 by (auto simp: processScanJob_def split: sum.splits)
  have err: "\<exists>e. res = Inl e" using res by (cases r2) auto
  have sr1: "scan_results (db w1) = scan_results (db w)"
    using updateJobStatus_cases [OF u1] by auto
  have sr2: "scan_results (db w2) = scan_results (db w1)"
    using updateJobStatus_cases [OF u2] by auto
  have calls: "scanner_calls w' = scanner_calls w" using e1 e2 w' by simp
  have last: "res = Inl (JsError ?m) \<and>
            (\<exists>j'. job_of ?jid (db w') = Some j' \<and> status j' = FAILED \<and>
               error_message j' = Some ?m \<and> attempts j' = attempts j + 1)"
    if j: "job_of ?jid (db w) = Some j" and nf: "pg_faults w = []" for j
  proof -
    have nf0: "\<not> next_fault w" using nf by (simp add: next_fault_def)
    from updateJobStatus_no_fault [OF nf0 j, of PROCESSING None] u1
    have r1: "r1 = Inr (set_status PROCESSING None (clock w) j)"
      and d1: "db w1 = update_job ?jid (set_status PROCESSING None (clock w)) (db w)"
      by simp_all
    have j1: "job_of ?jid (db w1) = Some (set_status PROCESSING None (clock w) j)"
      unfolding d1 using j by (simp add: job_of_update_job)
    have nf1: "\<not> next_fault w1" using e1 nf by (simp add: next_fault_def)
    have em: "e = JsError ?m" using e r1 by simp
    from updateJobStatus_no_fault [OF nf1 j1, of FAILED "Some (message e)"] u2
    have r2: "r2 = Inr (set_status FAILED (Some (message e)) (clock w1)
                     (set_status PROCESSING None (clock w) j))"
      and d2: "db w2 = update_job ?jid (set_status FAILED (Some (message e)) (clock w1))
                         (db w1)"
      by simp_all
    have j2: "job_of ?jid (db w2) =
        Some (set_status FAILED (Some (message e)) (clock w1)
               (set_status PROCESSING None (clock w) j))"
      unfolding d2 using j1 by (simp add: job_of_update_job)
    from res r2 em j2 w' show ?thesis by simp
  qed
  from err sr1 sr2 w' calls last show ?thesis by simp
qed

text \<open>The theorem at the delivery of job \<^verbatim>\<open>j1\<close> with nothing on disk.\<close>

theorem missing_file_fails_before_scan_witness:
  "\<not> fileExists (path_basename (filePath_payload payload_a)) world_j1 \<and>
   fst (processScanJob payload_a ''r1'' True clean_scan world_j1) =
     Inl (JsError ''File not found: /app/uploads/17-ab-a.pdf'') \<and>
   scan_results (db (snd (processScanJob payload_a ''r1'' True clean_scan world_j1))) =
     scan_results (db world_j1) \<and>
   scanner_calls (snd (processScanJob payload_a ''r1'' True clean_scan world_j1)) =
     scanner_calls world_j1 \<and>
   map status (jobs (db (snd (processScanJob payload_a ''r1'' True clean_scan world_j1)))) =
     [FAILED] \<and>
   map error_message
     (jobs (db (snd (processScanJob payload_a ''r1'' True clean_scan world_j1)))) =
     [Some ''File not found: /app/uploads/17-ab-a.pdf'']"
proof -
  let ?X = "processScanJob payload_a ''r1'' True clean_scan world_j1"
  have n: "\<not> fileExists (path_basename (filePath_payload payload_a)) world_j1"
    by code_simp
  have f: "fst ?X = Inl (JsError ''File not found: /app/uploads/17-ab-a.pdf'')"
    by code_simp
  have s: "map status (jobs (db (snd ?X))) = [FAILED]" by code_simp
  have m: "map error_message (jobs (db (snd ?X))) =
             [Some ''File not found: /app/uploads/17-ab-a.pdf'']"
    by code_simp
  have x: "?X = (fst ?X, snd ?X)" by simp
  from missing_file_fails_before_scan [OF n x] n f s m show ?thesis by simp
qed

subsection \<open>The upload route and the queue\<close>

text \<open>
  Claim C8 on the code, at the upload during which Redis loses the \<^verbatim>\<open>add\<close> command: the
  handler throws the \<^verbatim>\<open>QueueError\<close> and has deleted the stored file, but the job it
  created is still in the table, \<^verbatim>\<open>pending\<close>, and the queue has no entry for it.
\<close>

theorem enqueue_failure_leaves_pending_job:
  "fst (post_scan stored_a ''a.pdf'' ''application/pdf'' 5 ''A'' world_redis_down) =
     Inl (QueueError ''Failed to add job to queue'') \<and>
   map id_jobs (jobs (db upload_failed)) = [''A''] \<and>
   map status (jobs (db upload_failed)) = [PENDING] \<and>
   map queue_job_id (queue upload_failed) = [] \<and>
   ''/app/uploads/17-ab-a.pdf'' \<in> disk world_redis_down \<and>
   ''/app/uploads/17-ab-a.pdf'' \<notin> disk upload_failed"
  by code_simp

text \<open>
  Claim C5 on the code, at two uploads made at the same time, \<^verbatim>\<open>A\<close> with priority 5
  and \<^verbatim>\<open>B\<close> with priority 1: \<^verbatim>\<open>enqueueScanJob\<close> hands the numbers to the queue as they
  are, the queue serves the lower number first (in every version of the library), so
  \<^verbatim>\<open>B\<close> is delivered before \<^verbatim>\<open>A\<close>; \<^verbatim>\<open>getPendingJobs\<close> of the job store lists the same
  two jobs with \<^verbatim>\<open>A\<close> first.
\<close>

theorem higher_priority_is_delivered_later:
  "map queue_job_id (queue world_A_B) = [''A'', ''B''] \<and>
   map opts_priority (queue world_A_B) = [5, 1] \<and>
   map added_at (queue world_A_B) = [100, 100] \<and>
   map queue_job_id (delivery_order True (clock world_A_B) (queue world_A_B)) =
     [''B'', ''A''] \<and>
   map queue_job_id (delivery_order False (clock world_A_B) (queue world_A_B)) =
     [''B'', ''A''] \<and>
   map_option queue_job_id (next_delivery True world_A_B) = Some ''B'' \<and>
   map_option queue_job_id (next_delivery False world_A_B) = Some ''B'' \<and>
   map_sum message (map id_jobs) (fst (getPendingJobs 10 world_A_B)) = Inr [''A'', ''B'']"
  by code_simp

subsection \<open>Paths and the upload directory\<close>

lemma split_path_not_Nil [simp]: "split_path x \<noteq> []"
  by (induction x) (auto split: list.splits)

lemma split_path_no_slash: "s \<in> set (split_path x) \<Longrightarrow> CHR ''/'' \<notin> set s"
proof (induction x arbitrary: s)
  case Nil
  then show ?case by simp
next
  case (Cons c cs)
  then show ?case
    by (cases "split_path cs") (auto split: if_splits)
qed

lemma split_path_append_slash:
  "split_path (x @ CHR ''/'' # y) = split_path x @ split_path y"
proof (induction x)
  case Nil
  then show ?case by simp
next
  case (Cons c cs)
  then show ?case
    by (cases "split_path cs") auto
qed

lemma split_path_plain: "CHR ''/'' \<notin> set s \<Longrightarrow> split_path s = [s]"
  by (induction s) auto

lemma split_path_join:
  "ss \<noteq> [] \<Longrightarrow> \<forall>s\<in>set ss. CHR ''/'' \<notin> set s \<Longrightarrow> split_path (join_path ss) = ss"
proof (induction ss rule: join_path.induct)
  case 1
  then show ?case by simp
next
  case (2 s)
  then show ?case by (simp add: split_path_plain)
next
  case (3 s t ss)
  then show ?case
    by (simp add: split_path_append_slash split_path_plain)
qed

lemma normalize_segments_append:
  "normalize_segments a res (ss @ ts) =
     normalize_segments a (normalize_segments a res ss) ts"
  by (induction ss arbitrary: res) auto

lemma normalize_segments_clean:
  "\<forall>s\<in>set ss. clean_segment s \<Longrightarrow> normalize_segments a res ss = res @ ss"
  by (induction ss arbitrary: res) (auto simp: clean_segment_def)

lemma join_path_snoc:
  "us \<noteq> [] \<Longrightarrow> join_path (us @ [b]) = join_path us @ ''/'' @ b"
  by (induction us rule: join_path.induct) auto

lemma length_join_path_butlast: "length (join_path (butlast us)) \<le> length (join_path us)"
  by (induction us rule: join_path.induct) auto

lemma join_path_Nil_iff: "\<forall>s\<in>set us. s \<noteq> [] \<Longrightarrow> join_path us = [] \<longleftrightarrow> us = []"
  by (induction us rule: join_path.induct) auto

lemma last_join_path:
  "us \<noteq> [] \<Longrightarrow> \<forall>s\<in>set us. s \<noteq> [] \<Longrightarrow> last (join_path us) = last (last us)"
proof (induction us rule: join_path.induct)
  case 1
  then show ?case by simp
next
  case (2 s)
  then show ?case by simp
next
  case (3 s t ss)
  then have "join_path (t # ss) \<noteq> []"
    using join_path_Nil_iff [of "t # ss"] by auto
  with 3 show ?case by simp
qed


lemma normalize_segments_result_clean:
  "\<forall>s\<in>set res. clean_segment s \<Longrightarrow> \<forall>s\<in>set ss. CHR ''/'' \<notin> set s \<Longrightarrow>
     \<forall>s\<in>set (normalize_segments False res ss). clean_segment s"
proof (induction ss arbitrary: res)
  case Nil
  then show ?case by simp
next
  case (Cons s ss)
  have rest: "\<forall>s\<in>set ss. CHR ''/'' \<notin> set s" using Cons.prems(2) by simp
  show ?case
  proof (cases "s = [] \<or> s = ''.''")
    case True
    then show ?thesis using Cons.IH [OF Cons.prems(1) rest] by auto
  next
    case False
    note nd = this
    show ?thesis
    proof (cases "s = ''..''")
      case True
      have b: "\<forall>s\<in>set (butlast res). clean_segment s"
        using Cons.prems(1) by (auto dest: in_set_butlastD)
      from True nd Cons.IH [OF Cons.prems(1) rest] Cons.IH [OF b rest]
      show ?thesis by simp
    next
      case False
      with nd Cons.prems(2) have "clean_segment s" by (simp add: clean_segment_def)
      with Cons.prems(1) have "\<forall>x\<in>set (res @ [s]). clean_segment x" by simp
      from Cons.IH [OF this rest] False nd show ?thesis by simp
    qed
  qed
qed


lemma path_basename_no_slash: "CHR ''/'' \<notin> set (path_basename name)"
  unfolding path_basename_def by (auto dest: set_takeWhileD)

lemma normalize_root_segments:
  assumes "\<forall>s\<in>set us. clean_segment s"
  shows "normalize_segments False [] (split_path (''/'' @ join_path us)) = us"
proof (cases "us = []")
  case True
  then show ?thesis by simp
next
  case False
  have "\<forall>s\<in>set us. CHR ''/'' \<notin> set s" using assms by (simp add: clean_segment_def)
  with False have "split_path (join_path us) = us" by (rule split_path_join)
  then show ?thesis using normalize_segments_clean [OF assms, of False "[]"] by simp
qed

lemma path_resolve_shape:
  assumes "isAbsolute wd"
  shows "\<exists>us. (\<forall>s\<in>set us. clean_segment s) \<and> path_resolve wd dir = ''/'' @ join_path us"
proof -
  let ?X = "if isAbsolute dir \<or> wd = [] then (if dir = [] then [] else dir @ ''/'')
            else wd @ ''/'' @ (if dir = [] then [] else dir @ ''/'')"
  let ?us = "normalize_segments False [] (split_path ?X)"
  have "\<forall>s\<in>set ?us. clean_segment s"
    by (rule normalize_segments_result_clean) (auto dest: split_path_no_slash)
  moreover have "path_resolve wd dir = ''/'' @ join_path ?us"
    using assms by (simp add: path_resolve_def Let_def normalizeString_def)
  ultimately show ?thesis by blast
qed

lemma path_resolve_normal:
  assumes "\<forall>s\<in>set us. clean_segment s"
  shows "path_resolve wd (''/'' @ join_path us) = ''/'' @ join_path us"
proof -
  let ?p = "''/'' @ join_path us"
  have "split_path (?p @ ''/'') = split_path ?p @ [[]]"
    using split_path_append_slash [of ?p "[]"] by simp
  then have "normalize_segments False [] (split_path (?p @ ''/'')) = us"
    using normalize_root_segments [OF assms] by (simp add: normalize_segments_append)
  then show ?thesis
    by (simp add: path_resolve_def Let_def normalizeString_def isAbsolute_def)
qed

lemma last_join_path_not_slash:
  assumes "\<forall>s\<in>set us. clean_segment s" and "us \<noteq> []"
  shows "last (join_path us) \<noteq> CHR ''/''"
proof -
  have ne: "\<forall>s\<in>set us. s \<noteq> []" using assms(1) by (simp add: clean_segment_def)
  have "last us \<in> set us" using assms(2) by simp
  then have "clean_segment (last us)" using assms(1) by blast
  then have "last (last us) \<noteq> CHR ''/''"
    unfolding clean_segment_def using last_in_set [of "last us"] by metis
  with last_join_path [OF assms(2) ne] show ?thesis by simp
qed

lemma path_normalize_root:
  assumes "\<forall>s\<in>set us. clean_segment s"
  shows "path_normalize (''/'' @ join_path us) = ''/'' @ join_path us"
proof (cases "us = []")
  case True
  then show ?thesis
    by (simp add: path_normalize_def Let_def normalizeString_def isAbsolute_def)
next
  case False
  have ne: "\<forall>s\<in>set us. s \<noteq> []" using assms by (simp add: clean_segment_def)
  have j: "join_path us \<noteq> []" using join_path_Nil_iff [OF ne] False by simp
  have l: "last (join_path us) \<noteq> CHR ''/''"
    by (rule last_join_path_not_slash [OF assms False])
  show ?thesis
    using normalize_root_segments [OF assms] j l
    by (simp add: path_normalize_def Let_def normalizeString_def isAbsolute_def)
qed

lemma path_join_child:
  assumes "\<forall>s\<in>set us. clean_segment s" and "b \<noteq> []" and "CHR ''/'' \<notin> set b"
  shows "path_join (''/'' @ join_path us) b =
           ''/'' @ join_path (normalize_segments False us [b])"
proof -
  let ?U = "''/'' @ join_path us"
  define P where "P = ?U @ ''/'' @ b"
  have sp: "split_path P = split_path ?U @ [b]"
    unfolding P_def using split_path_append_slash [of ?U b] assms(3)
    by (simp add: split_path_plain)
  have n: "normalize_segments False [] (split_path P) = normalize_segments False us [b]"
    unfolding sp normalize_segments_append normalize_root_segments [OF assms(1)] ..
  have "last b \<in> set b" using assms(2) by simp
  with assms(3) have "last b \<noteq> CHR ''/''" by metis
  then have l: "last P \<noteq> CHR ''/''" using assms(2) by (simp add: P_def)
  have ab: "isAbsolute P" and ne: "P \<noteq> []" by (simp_all add: P_def isAbsolute_def)
  have "path_normalize P = ''/'' @ join_path (normalize_segments False us [b])"
    using l ab ne by (simp add: path_normalize_def Let_def normalizeString_def n)
  moreover have "path_join ?U b = path_normalize P"
    using assms(2) by (simp add: path_join_def P_def)
  ultimately show ?thesis by simp
qed

lemma not_prefix_longer: "length y < length x \<Longrightarrow> \<not> prefix x y"
  by (auto simp: prefix_def)


lemma getFilePath_normal:
  assumes us: "\<forall>s\<in>set us. clean_segment s" and U: "U = ''/'' @ join_path us"
  shows "getFilePath wd U name =
           (if us \<noteq> [] \<and> clean_segment (path_basename name)
            then Inr (U @ ''/'' @ path_basename name)
            else Inl (StorageError (''Invalid file path detected: '' @ name)))"
proof -
  let ?b = "path_basename name"
  let ?R = "normalize_segments False us [?b]"
  define Q where "Q = ''/'' @ join_path ?R"
  have ru: "path_resolve wd U = U" unfolding U by (rule path_resolve_normal [OF us])
  have bs: "CHR ''/'' \<notin> set ?b" by (rule path_basename_no_slash)
  have self: "\<not> prefix (U @ ''/'') U" by (rule not_prefix_longer) simp
  show ?thesis
  proof (cases "?b = []")
    case True
    then have "path_join U ?b = U"
      using path_normalize_root [OF us] by (simp add: path_join_def U)
    with True ru self show ?thesis
      by (simp add: getFilePath_def Let_def clean_segment_def)
  next
    case False
    have pj: "path_join U ?b = Q"
      unfolding U Q_def by (rule path_join_child [OF us False bs])
    have rc: "\<forall>s\<in>set ?R. clean_segment s"
      by (rule normalize_segments_result_clean [OF us]) (simp add: bs)
    have rp: "path_resolve wd Q = Q"
      unfolding Q_def by (rule path_resolve_normal [OF rc])
    have g: "getFilePath wd U name =
               (if \<not> prefix (U @ ''/'') Q
                then Inl (StorageError (''Invalid file path detected: '' @ name))
                else Inr Q)"
      by (simp add: getFilePath_def Let_def pj rp ru)
    show ?thesis
    proof (cases "?b = ''.''")
      case True
      then have "Q = U" by (simp add: Q_def U)
      with g self True show ?thesis by (simp add: clean_segment_def)
    next
      case nd: False
      show ?thesis
      proof (cases "?b = ''..''")
        case True
        have "length (join_path ?R) \<le> length (join_path us)"
          using True length_join_path_butlast [of us] by simp
        then have "length Q < length (U @ ''/'')" by (simp add: Q_def U)
        then have "\<not> prefix (U @ ''/'') Q" by (rule not_prefix_longer)
        with g True show ?thesis by (simp add: clean_segment_def)
      next
        case ndd: False
        have cb: "clean_segment ?b" using False nd ndd bs by (simp add: clean_segment_def)
        have R: "?R = us @ [?b]" using False nd ndd by simp
        show ?thesis
        proof (cases "us = []")
          case True
          have "\<not> prefix ''//'' (''/'' @ ?b)"
            using bs False by (cases ?b) auto
          then have "\<not> prefix (U @ ''/'') Q" using True R by (simp add: Q_def U)
          with g True show ?thesis by simp
        next
          case ne: False
          have "join_path ?R = join_path us @ ''/'' @ ?b"
            unfolding R by (rule join_path_snoc [OF ne])
          then have "Q = U @ ''/'' @ ?b" by (simp add: Q_def U)
          with g ne cb show ?thesis by simp
        qed
      qed
    qed
  qed
qed

text \<open>
  Claim C10. In an absolute working directory, whatever the configured upload
  directory and whatever the name asked for: \<^verbatim>\<open>getFilePath\<close> returns only the upload
  directory, a slash and the base name of its argument, that base name being a
  single path component other than \<^verbatim>\<open>.\<close> and \<^verbatim>\<open>..\<close>; for every other argument (and
  for every argument when the upload directory is the root) it throws
  \<^verbatim>\<open>StorageError\<close>.
\<close>

theorem getFilePath_stays_inside:
  assumes "isAbsolute wd"
  shows "getFilePath wd (path_resolve wd dir) name =
           (if path_resolve wd dir \<noteq> ''/'' \<and> path_basename name \<noteq> [] \<and>
               path_basename name \<noteq> ''.'' \<and> path_basename name \<noteq> ''..''
            then Inr (path_resolve wd dir @ ''/'' @ path_basename name)
            else Inl (StorageError (''Invalid file path detected: '' @ name))) \<and>
         CHR ''/'' \<notin> set (path_basename name)"
proof -
  from path_resolve_shape [OF assms] obtain us where
    us: "\<forall>s\<in>set us. clean_segment s" and r: "path_resolve wd dir = ''/'' @ join_path us"
    by blast
  have "\<forall>s\<in>set us. s \<noteq> []" using us by (simp add: clean_segment_def)
  then have "us \<noteq> [] \<longleftrightarrow> path_resolve wd dir \<noteq> ''/''"
    using join_path_Nil_iff [of us] by (simp add: r)
  with getFilePath_normal [OF us r, of wd name] path_basename_no_slash [of name]
  show ?thesis by (simp add: clean_segment_def)
qed

text \<open>
  The theorem in \<^verbatim>\<open>/app\<close> with the default upload directory, at a name that climbs
  out of it and at the name \<^verbatim>\<open>..\<close>.
\<close>

theorem getFilePath_stays_inside_witness:
  "isAbsolute ''/app'' \<and>
   getFilePath ''/app'' (path_resolve ''/app'' ''./uploads'') ''../../etc/passwd'' =
     Inr (path_resolve ''/app'' ''./uploads'' @ ''/'' @ path_basename ''../../etc/passwd'') \<and>
   path_resolve ''/app'' ''./uploads'' @ ''/'' @ path_basename ''../../etc/passwd'' =
     ''/app/uploads/passwd'' \<and>
   getFilePath ''/app'' (path_resolve ''/app'' ''./uploads'') ''..'' =
     Inl (StorageError ''Invalid file path detected: ..'')"
proof -
  have a: "isAbsolute ''/app''" by code_simp
  have b: "path_basename ''../../etc/passwd'' = ''passwd''" by code_simp
  have c: "path_resolve ''/app'' ''./uploads'' = ''/app/uploads''" by code_simp
  have d: "path_basename ''..'' = ''..''" by code_simp
  from getFilePath_stays_inside
    [OF a, where dir = "''./uploads''" and name = "''../../etc/passwd''"] b c
  have one: "getFilePath ''/app'' (path_resolve ''/app'' ''./uploads'') ''../../etc/passwd'' =
     Inr (path_resolve ''/app'' ''./uploads'' @ ''/'' @ path_basename ''../../etc/passwd'')"
    by simp
  from getFilePath_stays_inside [OF a, where dir = "''./uploads''" and name = "''..''"] d
  have two: "getFilePath ''/app'' (path_resolve ''/app'' ''./uploads'') ''..'' =
     Inl (StorageError ''Invalid file path detected: ..'')"
    by simp
  from a one two b c show ?thesis by simp
qed

end
